theory Spec2Isabelle
  imports Complex_Main "HOL-Library.AList"
begin

section \<open>Embedding vectors and cosine similarity\<close>

text \<open>
  Embeddings are numpy arrays of floats; they are modelled as lists of reals, so the
  arithmetic below is exact. The two exceptions the Python code can meet are values of
  \<open>error\<close>: numpy's \<open>ValueError\<close> when \<open>np.dot\<close> gets arrays of different lengths, and
  Python's \<open>UnboundLocalError\<close> when a local name is read before it was assigned.
\<close>

type_synonym vec = "real list"

datatype error = ValueError | UnboundLocalError

text \<open>\<open>np.linalg.norm(a)\<close>: the Euclidean norm.\<close>

definition linalg_norm :: "vec \<Rightarrow> real" where
  "linalg_norm a = sqrt (\<Sum>x\<leftarrow>a. x * x)"

text \<open>\<open>np.dot(a, b)\<close> on one-dimensional arrays: it raises when the shapes differ.\<close>

definition np_dot :: "vec \<Rightarrow> vec \<Rightarrow> error + real" where
  "np_dot a b =
     (if length a = length b then Inr (\<Sum>(x, y)\<leftarrow>zip a b. x * y) else Inl ValueError)"

text \<open>\<open>DatabaseManager.cosine_similarity\<close> (database.py).\<close>

definition cosine_similarity :: "vec \<Rightarrow> vec \<Rightarrow> error + real" where
  "cosine_similarity a b =
     (if linalg_norm a = 0 \<or> linalg_norm b = 0 then Inr 0
      else (case np_dot a b of
              Inl e \<Rightarrow> Inl e
            | Inr d \<Rightarrow> Inr (d / (linalg_norm a * linalg_norm b))))"


section \<open>The best-match query\<close>

type_synonym person_id = string

type_synonym gallery = "(person_id \<times> vec) list"

text \<open>
  \<open>DatabaseManager.find_best_match\<close>: the loop over \<open>known_embeddings\<close>, with the three
  local variables \<open>best_id\<close>, \<open>best_sim\<close>, \<open>second_best_sim\<close> as the accumulator.
\<close>

fun find_best_match_loop ::
  "vec \<Rightarrow> gallery \<Rightarrow> person_id option \<times> real \<times> real
     \<Rightarrow> error + (person_id option \<times> real \<times> real)" where
  "find_best_match_loop new_embedding [] acc = Inr acc"
| "find_best_match_loop new_embedding ((person_id, known_emb) # rest)
       (best_id, best_sim, second_best_sim) =
     (case cosine_similarity new_embedding known_emb of
        Inl e \<Rightarrow> Inl e
      | Inr sim \<Rightarrow>
          if sim > best_sim
          then find_best_match_loop new_embedding rest (Some person_id, sim, best_sim)
          else if sim > second_best_sim
          then find_best_match_loop new_embedding rest (best_id, best_sim, sim)
          else find_best_match_loop new_embedding rest (best_id, best_sim, second_best_sim))"

definition find_best_match ::
  "vec \<Rightarrow> gallery \<Rightarrow> error + (person_id option \<times> real \<times> real)" where
  "find_best_match new_embedding known_embeddings =
     find_best_match_loop new_embedding known_embeddings (None, - 1, - 1)"

text \<open>
  Python truthiness of an identifier that may be \<open>None\<close>: \<open>None\<close> and the empty string
  are false.
\<close>

fun truthy_id :: "person_id option \<Rightarrow> bool" where
  "truthy_id None = False"
| "truthy_id (Some pid) = (pid \<noteq> [])"

text \<open>
  The test \<open>best_sim >= sim_thresh and best_id\<close> of \<open>process_video\<close> on the result of the
  query: whether the detection is an embedding match with a known person.
\<close>

definition embedding_match :: "real \<Rightarrow> person_id option \<times> real \<times> real \<Rightarrow> bool" where
  "embedding_match sim_thresh r =
     (case r of (best_id, best_sim, second_best_sim) \<Rightarrow>
        best_sim \<ge> sim_thresh \<and> truthy_id best_id)"

section \<open>The outside world: clock, files and the MongoDB store\<close>

text \<open>
  Timestamps are the ISO texts of \<open>datetime.utcnow()\<close>; they are modelled by the instant
  they denote, a natural number, which orders them as the texts are ordered.
\<close>

type_synonym timestamp = nat

record person_doc =
  p_person_id :: person_id
  first_seen :: timestamp
  last_seen :: timestamp
  visit_count :: int

record face_doc =
  f_person_id :: person_id
  face_vector :: vec
  created_time :: timestamp

record visit_doc =
  v_person_id :: person_id
  v_action :: string
  v_timestamp :: timestamp
  photo_path :: "string option"

text \<open>
  Every call that leaves the program is an event of the trace: reading the clock,
  drawing a UUID, writing an image file, and each pymongo operation with its arguments.
\<close>

datatype event =
    Utcnow
  | Uuid4
  | ImWrite string
  | CounterIncrement
  | PeopleInsert person_id
  | PeopleUpdate person_id timestamp
  | FaceDataInsert person_id vec
  | FaceDataFind person_id
  | FaceDataFindAll
  | VisitInsert person_id string

text \<open>
  The world holds the four collections, the trace of the calls made so far, and what the
  environment answers to the call number \<open>n\<close>: whether a pymongo operation raises
  (connection loss, duplicate key, missing document), what the clock shows, which UUID
  is drawn and which dated file name is generated.
\<close>

record world =
  people :: "person_doc list"
  face_data :: "face_doc list"
  visit_records :: "visit_doc list"
  current_number :: int
  trace :: "event list"
  raises :: "nat \<Rightarrow> bool"
  utcnow :: "nat \<Rightarrow> timestamp"
  uuid4_hex :: "nat \<Rightarrow> string"
  dated_name :: "nat \<Rightarrow> string"

definition emit :: "event \<Rightarrow> world \<Rightarrow> world" where
  "emit e w = w\<lparr>trace := trace w @ [e]\<rparr>"

text \<open>Whether the call the program is about to make raises.\<close>

definition fails :: "world \<Rightarrow> bool" where
  "fails w = raises w (length (trace w))"

text \<open>\<open>timestamp_iso\<close> (utils.py).\<close>

definition timestamp_iso :: "world \<Rightarrow> timestamp \<times> world" where
  "timestamp_iso w = (utcnow w (length (trace w)), emit Utcnow w)"

type_synonym image = "nat list list"

text \<open>
  \<open>save_cropped_face\<close> (utils.py): nothing is written when \<open>save_cropped\<close> is off;
  otherwise the crop goes to \<open>logs_folder/prefix/date/time_uuid.jpg\<close>.
\<close>

definition save_cropped_face ::
  "world \<Rightarrow> image \<Rightarrow> string \<Rightarrow> string \<Rightarrow> bool \<Rightarrow> string option \<times> world" where
  "save_cropped_face w img prefix folder save =
     (if \<not> save then (None, w)
      else (let path = folder @ ''/'' @ prefix @ ''/'' @ dated_name w (length (trace w))
            in (Some path, emit (ImWrite path) w)))"

text \<open>Python's \<open>str\<close> of an integer, for the f-string \<open>person{n}\<close>.\<close>

function str_nat :: "nat \<Rightarrow> string" where
  "str_nat n =
     (if n < 10 then [''0123456789'' ! n]
      else str_nat (n div 10) @ [''0123456789'' ! (n mod 10)])"
  by pat_completeness auto
termination
  by (relation "measure id") auto

declare str_nat.simps [simp del]

definition str_int :: "int \<Rightarrow> string" where
  "str_int i = (if i < 0 then ''-'' @ str_nat (nat (- i)) else str_nat (nat i))"

text \<open>
  \<open>DatabaseManager.get_next_person_id\<close>: the counter is incremented and read in one
  operation; when that raises, the identifier falls back to eight hex digits of a UUID.
\<close>

definition get_next_person_id :: "world \<Rightarrow> person_id \<times> world" where
  "get_next_person_id w =
     (if fails w
      then (let w1 = emit CounterIncrement w
            in (''person_'' @ take 8 (uuid4_hex w1 (length (trace w1))), emit Uuid4 w1))
      else (''person'' @ str_int (current_number w + 1),
            emit CounterIncrement (w\<lparr>current_number := current_number w + 1\<rparr>)))"

text \<open>
  \<open>DatabaseManager.register_person\<close>: two inserts inside one \<open>try\<close>; the first one that
  raises ends the function, which logs the error and returns normally.
\<close>

definition register_person :: "world \<Rightarrow> person_id \<Rightarrow> vec \<Rightarrow> timestamp \<Rightarrow> world" where
  "register_person w person_id embedding_vector ts =
     (if fails w then emit (PeopleInsert person_id) w
      else (let w1 = emit (PeopleInsert person_id)
                  (w\<lparr>people := people w @
                     [\<lparr>p_person_id = person_id, first_seen = ts,
                       last_seen = ts, visit_count = 1\<rparr>]\<rparr>)
            in if fails w1 then emit (FaceDataInsert person_id embedding_vector) w1
               else emit (FaceDataInsert person_id embedding_vector)
                  (w1\<lparr>face_data := face_data w1 @
                     [\<lparr>f_person_id = person_id, face_vector = embedding_vector,
                       created_time = ts\<rparr>]\<rparr>)))"

text \<open>\<open>update_one\<close> with \<open>$set\<close> and \<open>$inc\<close>: the first matching document is changed.\<close>

fun update_one_last_seen :: "person_id \<Rightarrow> timestamp \<Rightarrow> person_doc list \<Rightarrow> person_doc list" where
  "update_one_last_seen pid ts [] = []"
| "update_one_last_seen pid ts (d # ds) =
     (if p_person_id d = pid
      then d\<lparr>last_seen := ts, visit_count := visit_count d + 1\<rparr> # ds
      else d # update_one_last_seen pid ts ds)"

text \<open>\<open>DatabaseManager.update_last_seen\<close>.\<close>

definition update_last_seen :: "world \<Rightarrow> person_id \<Rightarrow> timestamp \<Rightarrow> world" where
  "update_last_seen w person_id ts =
     (if fails w then emit (PeopleUpdate person_id ts) w
      else emit (PeopleUpdate person_id ts)
             (w\<lparr>people := update_one_last_seen person_id ts (people w)\<rparr>))"

text \<open>\<open>DatabaseManager.save_visit_record\<close>.\<close>

definition save_visit_record ::
  "world \<Rightarrow> person_id \<Rightarrow> string \<Rightarrow> timestamp \<Rightarrow> string option \<Rightarrow> world" where
  "save_visit_record w person_id action ts img_path =
     (if fails w then emit (VisitInsert person_id action) w
      else emit (VisitInsert person_id action)
             (w\<lparr>visit_records := visit_records w @
                [\<lparr>v_person_id = person_id, v_action = action,
                  v_timestamp = ts, photo_path = img_path\<rparr>]\<rparr>))"

text \<open>
  The insert of \<open>process_video\<close> into \<open>face_data\<close> (the body of its \<open>try\<close>, up to the
  insert): the flag tells whether the insert returned.
\<close>

definition insert_face_data :: "world \<Rightarrow> person_id \<Rightarrow> vec \<Rightarrow> timestamp \<Rightarrow> bool \<times> world" where
  "insert_face_data w person_id emb ts =
     (if fails w then (False, emit (FaceDataInsert person_id emb) w)
      else (True, emit (FaceDataInsert person_id emb)
              (w\<lparr>face_data := face_data w @
                 [\<lparr>f_person_id = person_id, face_vector = emb, created_time = ts\<rparr>]\<rparr>)))"

section \<open>The diversity filter\<close>

text \<open>
  The query \<open>find({person_id}).sort(created_time, -1).limit(10)\<close>: the person's
  documents, latest first, ten at most.
\<close>

definition recent_face_data :: "world \<Rightarrow> person_id \<Rightarrow> face_doc list" where
  "recent_face_data w pid =
     take 10 (sort_key (\<lambda>d. - int (created_time d))
                (filter (\<lambda>d. f_person_id d = pid) (face_data w)))"

text \<open>The loop of \<open>should_store_embedding\<close> over \<open>existing\<close>, \<open>max_sim\<close> as the accumulator.\<close>

fun max_sim_loop :: "vec \<Rightarrow> face_doc list \<Rightarrow> real \<Rightarrow> error + real" where
  "max_sim_loop new_embedding [] max_sim = Inr max_sim"
| "max_sim_loop new_embedding (emb # rest) max_sim =
     (case cosine_similarity new_embedding (face_vector emb) of
        Inl e \<Rightarrow> Inl e
      | Inr sim \<Rightarrow> max_sim_loop new_embedding rest (max max_sim sim))"

record config =
  detection_skip_frames :: int
  detection_conf_threshold :: real
  embedding_similarity_threshold :: real
  embedding_diversity_threshold :: real
  exit_frame_threshold :: int
  save_cropped :: bool
  logs_folder :: string

text \<open>
  \<open>DatabaseManager.should_store_embedding\<close>: any exception inside the \<open>try\<close> (the query
  raising, or \<open>np.dot\<close> on vectors of different lengths) is answered by \<open>True\<close>.
\<close>

definition should_store_embedding ::
  "config \<Rightarrow> world \<Rightarrow> person_id \<Rightarrow> vec \<Rightarrow> bool \<times> world" where
  "should_store_embedding cfg w person_id new_embedding =
     (let w1 = emit (FaceDataFind person_id) w in
      if fails w then (True, w1)
      else (let existing = recent_face_data w person_id in
            if existing = [] then (True, w1)
            else (case max_sim_loop new_embedding existing 0 of
                    Inl e \<Rightarrow> (True, w1)
                  | Inr max_sim \<Rightarrow> (max_sim < embedding_diversity_threshold cfg, w1))))"

section \<open>The tracker\<close>

type_synonym box = "int \<times> int \<times> int \<times> int"

type_synonym detection = "int \<times> int \<times> int \<times> int \<times> real"

text \<open>The dictionary that \<open>register_face\<close> stores for a person.\<close>

record pdata =
  last_seen_frame :: int
  bbox :: "box option"
  last_known_bbox :: "box option"
  last_crop :: "image option"
  conf :: real
  last_seen_time :: timestamp

text \<open>
  \<open>tracked_people\<close> is a Python dictionary, which iterates in insertion order: an
  association list with distinct keys. Assignment to a key is \<open>AList.update\<close> (in place
  for a present key, at the end for a new one) and \<open>pop\<close> is \<open>AList.delete\<close>.
\<close>

type_synonym tracked = "(person_id \<times> pdata) list"

text \<open>
  The Euclidean distance between the centres of two boxes, as both the tracker and
  \<open>process_video\<close> compute it.
\<close>

definition center_distance :: "box \<Rightarrow> box \<Rightarrow> real" where
  "center_distance a b =
     (case a of (ax, ay, aw, ah) \<Rightarrow> case b of (bx, by, bw, bh) \<Rightarrow>
        sqrt (((real_of_int ax + real_of_int aw / 2) - (real_of_int bx + real_of_int bw / 2))\<^sup>2 +
              ((real_of_int ay + real_of_int ah / 2) - (real_of_int by + real_of_int bh / 2))\<^sup>2))"

text \<open>
  The inner loop of \<open>_assign_detections_to_tracks\<close> over the enumerated detections;
  \<open>None\<close> stands for \<open>best_match_idx = -1\<close> with \<open>best_distance = inf\<close>.
\<close>

fun closest_detection ::
  "box \<Rightarrow> (nat \<times> detection) list \<Rightarrow> nat list \<Rightarrow> (nat \<times> real) option \<Rightarrow> (nat \<times> real) option" where
  "closest_detection last_bbox [] assigned_detections best = best"
| "closest_detection last_bbox ((i, (x, y, w, h, c)) # rest) assigned_detections best =
     (if i \<in> set assigned_detections
      then closest_detection last_bbox rest assigned_detections best
      else (let distance = center_distance last_bbox (x, y, w, h) in
            if distance < 100 \<and> (case best of None \<Rightarrow> True | Some (j, best_distance) \<Rightarrow> distance < best_distance)
            then closest_detection last_bbox rest assigned_detections (Some (i, distance))
            else closest_detection last_bbox rest assigned_detections best))"

text \<open>The outer loop of \<open>_assign_detections_to_tracks\<close> over the tracked people.\<close>

fun assign_loop :: "tracked \<Rightarrow> detection list \<Rightarrow> int \<Rightarrow> nat list \<Rightarrow> tracked" where
  "assign_loop [] detections frame_num assigned_detections = []"
| "assign_loop ((person_id, pd) # rest) detections frame_num assigned_detections =
     (case last_known_bbox pd of
        None \<Rightarrow> (person_id, pd) # assign_loop rest detections frame_num assigned_detections
      | Some last_bbox \<Rightarrow>
          (case closest_detection last_bbox (enumerate 0 detections) assigned_detections None of
             None \<Rightarrow> (person_id, pd) # assign_loop rest detections frame_num assigned_detections
           | Some (best_match_idx, best_distance) \<Rightarrow>
               (case detections ! best_match_idx of (x, y, w, h, c) \<Rightarrow>
                  (person_id, pd\<lparr>bbox := Some (x, y, w, h), last_known_bbox := Some (x, y, w, h),
                                  last_seen_frame := frame_num, conf := c\<rparr>)
                  # assign_loop rest detections frame_num (best_match_idx # assigned_detections))))"

definition assign_detections_to_tracks :: "tracked \<Rightarrow> detection list \<Rightarrow> int \<Rightarrow> tracked" where
  "assign_detections_to_tracks tp detections frame_num = assign_loop tp detections frame_num []"

text \<open>
  The \<open>else\<close> branch of \<open>update_trackers\<close>: the loop that refreshes every person whose
  \<open>bbox\<close> is set.
\<close>

fun refresh_loop :: "world \<Rightarrow> tracked \<Rightarrow> int \<Rightarrow> world \<times> tracked" where
  "refresh_loop w [] frame_num = (w, [])"
| "refresh_loop w ((person_id, pd) # rest) frame_num =
     (case bbox pd of
        None \<Rightarrow> (case refresh_loop w rest frame_num of (w', rest') \<Rightarrow> (w', (person_id, pd) # rest'))
      | Some b \<Rightarrow>
          (case timestamp_iso w of (ts, w1) \<Rightarrow>
             (case refresh_loop (update_last_seen w1 person_id ts) rest frame_num of
                (w', rest') \<Rightarrow> (w', (person_id, pd\<lparr>last_seen_frame := frame_num\<rparr>) # rest'))))"

text \<open>
  \<open>FaceTracker.update_trackers\<close>. The detections may be absent (\<open>None\<close>, the default);
  \<open>if current_detections\<close> holds for a list that is not empty.
\<close>

definition reset_bboxes :: "tracked \<Rightarrow> tracked" where
  "reset_bboxes tp = map (\<lambda>(person_id, pd). (person_id, pd\<lparr>bbox := None\<rparr>)) tp"

definition update_trackers ::
  "world \<Rightarrow> tracked \<Rightarrow> int \<Rightarrow> detection list option \<Rightarrow> world \<times> tracked" where
  "update_trackers w tp frame_num current_detections =
     (let tp1 = reset_bboxes tp in
      case current_detections of
        Some (d # ds) \<Rightarrow> (w, assign_detections_to_tracks tp1 (d # ds) frame_num)
      | _ \<Rightarrow> refresh_loop w tp1 frame_num)"

text \<open>
  The body of the \<open>if\<close> in \<open>FaceTracker.handle_exits\<close>: the last crop, if there is
  one, is saved, and an exit record goes to the store.
\<close>

definition save_exit :: "config \<Rightarrow> world \<Rightarrow> person_id \<Rightarrow> pdata \<Rightarrow> world" where
  "save_exit cfg w person_id pd =
     (case (case last_crop pd of
              None \<Rightarrow> (None, w)
            | Some crop \<Rightarrow> save_cropped_face w crop ''exits'' (logs_folder cfg) (save_cropped cfg)) of
        (img_path, w1) \<Rightarrow>
          (case timestamp_iso w1 of (timestamp_now, w2) \<Rightarrow>
             save_visit_record w2 person_id ''exit'' timestamp_now img_path))"

text \<open>
  The first loop of \<open>FaceTracker.handle_exits\<close>: it saves an exit record for every person
  not seen for more than \<open>exit_thresh\<close> frames and collects \<open>to_remove\<close>.
\<close>

fun exit_loop :: "config \<Rightarrow> world \<Rightarrow> tracked \<Rightarrow> int \<Rightarrow> int \<Rightarrow> world \<times> person_id list" where
  "exit_loop cfg w [] current_frame_num exit_thresh = (w, [])"
| "exit_loop cfg w ((person_id, pd) # rest) current_frame_num exit_thresh =
     (if current_frame_num - last_seen_frame pd > exit_thresh
      then (case exit_loop cfg (save_exit cfg w person_id pd) rest current_frame_num exit_thresh of
              (w', to_remove) \<Rightarrow> (w', person_id # to_remove))
      else exit_loop cfg w rest current_frame_num exit_thresh)"

text \<open>\<open>FaceTracker.handle_exits\<close>: the second loop pops every collected identifier.\<close>

definition handle_exits :: "config \<Rightarrow> world \<Rightarrow> tracked \<Rightarrow> int \<Rightarrow> int \<Rightarrow> world \<times> tracked" where
  "handle_exits cfg w tp current_frame_num exit_thresh =
     (case exit_loop cfg w tp current_frame_num exit_thresh of
        (w', to_remove) \<Rightarrow> (w', foldl (\<lambda>t person_id. AList.delete person_id t) tp to_remove))"

text \<open>\<open>FaceTracker.register_face\<close>.\<close>

definition register_face ::
  "tracked \<Rightarrow> person_id \<Rightarrow> box \<Rightarrow> image \<Rightarrow> real \<Rightarrow> timestamp \<Rightarrow> int \<Rightarrow> tracked" where
  "register_face tp person_id b crop c timestamp_now frame_num =
     AList.update person_id
       \<lparr>last_seen_frame = frame_num, bbox = Some b, last_known_bbox = Some b,
        last_crop = Some crop, conf = c, last_seen_time = timestamp_now\<rparr> tp"

section \<open>Identity resolution (\<open>process_video\<close>)\<close>

text \<open>
  The state that \<open>process_video\<close> carries from one detection to the next: the tracker's
  dictionary, the in-memory list \<open>known_embeddings\<close>, the outside world, and the local
  variable \<open>timestamp_now\<close>, which is unbound (\<open>None\<close>) until the embedding branch has
  assigned it once and keeps its last value afterwards.
\<close>

record pipeline =
  tracked_people :: tracked
  known_embeddings :: gallery
  store :: world
  timestamp_now :: "timestamp option"

text \<open>
  The position loop of \<open>process_video\<close>: the first tracked person, in the order of the
  dictionary, whose \<open>bbox\<close> is set and whose centre is less than 50 pixels away.
\<close>

fun position_match :: "tracked \<Rightarrow> box \<Rightarrow> person_id option" where
  "position_match [] det = None"
| "position_match ((person_id, pd) # rest) det =
     (case bbox pd of
        None \<Rightarrow> position_match rest det
      | Some tracked_box \<Rightarrow>
          if center_distance tracked_box det < 50 then Some person_id
          else position_match rest det)"

text \<open>
  ``Assign ID based on matching strategy'': the result is \<open>assigned_id\<close>,
  \<open>is_new_person\<close> and the state after the branch taken. An exception of
  \<open>find_best_match\<close> is not caught.
\<close>

definition assign_id ::
  "config \<Rightarrow> pipeline \<Rightarrow> box \<Rightarrow> vec \<Rightarrow> error + (person_id \<times> bool \<times> pipeline)" where
  "assign_id cfg s det emb =
     (let current_match = position_match (tracked_people s) det in
      if truthy_id current_match then Inr (the current_match, False, s)
      else (case find_best_match emb (known_embeddings s) of
              Inl e \<Rightarrow> Inl e
            | Inr (best_id, best_sim, second_best_sim) \<Rightarrow>
                (case timestamp_iso (store s) of (ts, w1) \<Rightarrow>
                   if best_sim \<ge> embedding_similarity_threshold cfg \<and> truthy_id best_id
                   then Inr (the best_id, False, s\<lparr>store := w1, timestamp_now := Some ts\<rparr>)
                   else (case get_next_person_id w1 of (new_id, w2) \<Rightarrow>
                           Inr (new_id, True,
                                s\<lparr>store := register_person w2 new_id emb ts,
                                  timestamp_now := Some ts,
                                  known_embeddings := known_embeddings s @ [(new_id, emb)]\<rparr>)))))"

text \<open>
  ``Log entry if this is a new presence in current tracking session''. The file is
  written before \<open>timestamp_now\<close> is read.
\<close>

definition log_entry :: "config \<Rightarrow> pipeline \<Rightarrow> person_id \<Rightarrow> image \<Rightarrow> error + pipeline" where
  "log_entry cfg s assigned_id crop =
     (if assigned_id \<notin> fst ` set (tracked_people s)
      then (case save_cropped_face (store s) crop ''entries'' (logs_folder cfg) (save_cropped cfg) of
              (cropped_path, w1) \<Rightarrow>
                (case timestamp_now s of
                   None \<Rightarrow> Inl UnboundLocalError
                 | Some ts \<Rightarrow>
                     Inr (s\<lparr>store := save_visit_record w1 assigned_id ''entry'' ts cropped_path\<rparr>)))
      else Inr s)"

text \<open>
  ``Store embedding if it's diverse enough from existing ones'': run whenever the person
  is not new. Inside the \<open>try\<close>, an unbound \<open>timestamp_now\<close> or a raising insert skips
  the append to \<open>known_embeddings\<close>.
\<close>

definition store_if_diverse :: "config \<Rightarrow> pipeline \<Rightarrow> person_id \<Rightarrow> bool \<Rightarrow> vec \<Rightarrow> pipeline" where
  "store_if_diverse cfg s assigned_id is_new_person emb =
     (if \<not> is_new_person
      then (case should_store_embedding cfg (store s) assigned_id emb of
              (keep, w1) \<Rightarrow>
                if keep
                then (case timestamp_now s of
                        None \<Rightarrow> s\<lparr>store := w1\<rparr>
                      | Some ts \<Rightarrow>
                          (case insert_face_data w1 assigned_id emb ts of
                             (inserted, w2) \<Rightarrow>
                               if inserted
                               then s\<lparr>store := w2,
                                      known_embeddings := known_embeddings s @ [(assigned_id, emb)]\<rparr>
                               else s\<lparr>store := w2\<rparr>))
                else s\<lparr>store := w1\<rparr>)
      else s)"

text \<open>``Update person's last seen timestamp and register for tracking''.\<close>

definition refresh_and_register ::
  "pipeline \<Rightarrow> person_id \<Rightarrow> detection \<Rightarrow> image \<Rightarrow> int \<Rightarrow> error + pipeline" where
  "refresh_and_register s assigned_id det crop frame_num =
     (case det of (x, y, w, h, c) \<Rightarrow>
        (case timestamp_now s of
           None \<Rightarrow> Inl UnboundLocalError
         | Some ts \<Rightarrow>
             Inr (s\<lparr>store := update_last_seen (store s) assigned_id ts,
                    tracked_people :=
                      register_face (tracked_people s) assigned_id (x, y, w, h) crop c ts frame_num\<rparr>)))"

text \<open>
  The body of the loop over the detections, from the position loop on, for a detection
  that has its crop and its embedding.
\<close>

definition resolve ::
  "config \<Rightarrow> int \<Rightarrow> pipeline \<Rightarrow> detection \<Rightarrow> image \<Rightarrow> vec \<Rightarrow> error + pipeline" where
  "resolve cfg frame_num s det crop emb =
     (case det of (x, y, w, h, c) \<Rightarrow>
        (case assign_id cfg s (x, y, w, h) emb of
           Inl e \<Rightarrow> Inl e
         | Inr (assigned_id, is_new_person, s1) \<Rightarrow>
             (case log_entry cfg s1 assigned_id crop of
                Inl e \<Rightarrow> Inl e
              | Inr s2 \<Rightarrow>
                  refresh_and_register (store_if_diverse cfg s2 assigned_id is_new_person emb)
                    assigned_id det crop frame_num)))"

text \<open>
  Python's slice \<open>xs[a:b]\<close>: a negative bound counts from the end, and both bounds are
  clipped to the list.
\<close>

definition py_slice :: "'a list \<Rightarrow> int \<Rightarrow> int \<Rightarrow> 'a list" where
  "py_slice xs a b =
     (let n = int (length xs);
          a' = (if a < 0 then max 0 (a + n) else min a n);
          b' = (if b < 0 then max 0 (b + n) else min b n)
      in take (nat (b' - a')) (drop (nat a') xs))"

text \<open>A frame is its rows of pixels; \<open>shape[0]\<close> is the height and \<open>shape[1]\<close> the width.\<close>

definition frame_height :: "image \<Rightarrow> int" where
  "frame_height frame = int (length frame)"

definition frame_width :: "image \<Rightarrow> int" where
  "frame_width frame = (case frame of [] \<Rightarrow> 0 | row # rows \<Rightarrow> int (length row))"

definition image_size :: "image \<Rightarrow> nat" where
  "image_size img = sum_list (map length img)"

text \<open>\<open>int(0.1 * max(w, h))\<close>: a tenth, truncated towards zero.\<close>

definition padding :: "int \<Rightarrow> int \<Rightarrow> int" where
  "padding w h = (let m = max w h in if m \<ge> 0 then m div 10 else - ((- m) div 10))"

text \<open>The face region with padding, \<open>frame[ya:yb, xa:xb]\<close>.\<close>

definition crop_face :: "image \<Rightarrow> detection \<Rightarrow> image" where
  "crop_face frame det =
     (case det of (x, y, w, h, c) \<Rightarrow>
        (let pad = padding w h;
             xa = max 0 (x - pad); ya = max 0 (y - pad);
             xb = min (frame_width frame) (x + w + pad);
             yb = min (frame_height frame) (y + h + pad)
         in map (\<lambda>row. py_slice row xa xb) (py_slice frame ya yb)))"

text \<open>
  One pass of the loop over the detections. \<open>extract_embedding\<close> is the embedding model
  of \<open>FaceDetector\<close>; a detection below the confidence threshold, with an empty crop or
  with no embedding is skipped.
\<close>

definition process_detection ::
  "config \<Rightarrow> (image \<Rightarrow> vec option) \<Rightarrow> image \<Rightarrow> int \<Rightarrow> pipeline \<Rightarrow> detection \<Rightarrow> error + pipeline" where
  "process_detection cfg extract_embedding frame frame_num s det =
     (case det of (x, y, w, h, c) \<Rightarrow>
        if c < detection_conf_threshold cfg then Inr s
        else (let crop = crop_face frame det in
              if image_size crop = 0 then Inr s
              else (case extract_embedding crop of
                      None \<Rightarrow> Inr s
                    | Some emb \<Rightarrow> resolve cfg frame_num s det crop emb)))"

fun process_detections ::
  "config \<Rightarrow> (image \<Rightarrow> vec option) \<Rightarrow> image \<Rightarrow> int \<Rightarrow> pipeline \<Rightarrow> detection list \<Rightarrow> error + pipeline" where
  "process_detections cfg extract_embedding frame frame_num s [] = Inr s"
| "process_detections cfg extract_embedding frame frame_num s (det # rest) =
     (case process_detection cfg extract_embedding frame frame_num s det of
        Inl e \<Rightarrow> Inl e
      | Inr s' \<Rightarrow> process_detections cfg extract_embedding frame frame_num s' rest)"

text \<open>
  The part of the main loop's body that changes the state, for the frame number
  \<open>frame_num\<close>: the tracker's update, recognition on every \<open>detect_skip\<close>-th frame or when
  nobody is tracked, and the exit check.
\<close>

definition process_frame ::
  "config \<Rightarrow> (image \<Rightarrow> detection list) \<Rightarrow> (image \<Rightarrow> vec option) \<Rightarrow> pipeline \<Rightarrow> image \<Rightarrow> int
     \<Rightarrow> error + pipeline" where
  "process_frame cfg detect_faces extract_embedding s frame frame_num =
     (let detections = detect_faces frame;
          detect_skip = max 1 (detection_skip_frames cfg)
      in case update_trackers (store s) (tracked_people s) frame_num (Some detections) of
           (w1, tp1) \<Rightarrow>
             (case (if frame_num mod detect_skip = 0 \<or> tp1 = []
                    then process_detections cfg extract_embedding frame frame_num
                           (s\<lparr>store := w1, tracked_people := tp1\<rparr>) detections
                    else Inr (s\<lparr>store := w1, tracked_people := tp1\<rparr>)) of
                Inl e \<Rightarrow> Inl e
              | Inr s2 \<Rightarrow>
                  (case handle_exits cfg (store s2) (tracked_people s2) frame_num
                          (exit_frame_threshold cfg) of
                     (w3, tp3) \<Rightarrow> Inr (s2\<lparr>store := w3, tracked_people := tp3\<rparr>))))"

text \<open>
  The main loop: \<open>frames\<close> are the frames that \<open>cap.read()\<close> delivers before the end of the
  stream, each with the answer of the visualizer's quit key. The loop returns the state
  and the frame number at which it stopped.
\<close>

fun main_loop ::
  "config \<Rightarrow> (image \<Rightarrow> detection list) \<Rightarrow> (image \<Rightarrow> vec option) \<Rightarrow> bool \<Rightarrow> int option
     \<Rightarrow> pipeline \<Rightarrow> int \<Rightarrow> (image \<times> bool) list \<Rightarrow> error + (pipeline \<times> int)" where
  "main_loop cfg detect_faces extract_embedding visualize max_frames s frame_num [] =
     Inr (s, frame_num)"
| "main_loop cfg detect_faces extract_embedding visualize max_frames s frame_num
       ((frame, should_quit) # rest) =
     (case process_frame cfg detect_faces extract_embedding s frame (frame_num + 1) of
        Inl e \<Rightarrow> Inl e
      | Inr s' \<Rightarrow>
          if visualize \<and> should_quit then Inr (s', frame_num + 1)
          else if (case max_frames of None \<Rightarrow> False | Some m \<Rightarrow> m \<noteq> 0 \<and> frame_num + 1 \<ge> m)
          then Inr (s', frame_num + 1)
          else main_loop cfg detect_faces extract_embedding visualize max_frames s'
                 (frame_num + 1) rest)"

text \<open>\<open>DatabaseManager.get_all_face_data\<close>: the empty list when the query raises.\<close>

definition get_all_face_data :: "world \<Rightarrow> gallery \<times> world" where
  "get_all_face_data w =
     (if fails w then ([], emit FaceDataFindAll w)
      else (map (\<lambda>doc. (f_person_id doc, face_vector doc)) (face_data w), emit FaceDataFindAll w))"

text \<open>
  \<open>process_video\<close> on an opened source: the gallery is loaded from the store, the tracker
  starts empty, and after the loop the exit check runs once more with the threshold 0.
  The result is the final state; the summary dictionary and the video writer are left
  out.
\<close>

definition process_video ::
  "config \<Rightarrow> (image \<Rightarrow> detection list) \<Rightarrow> (image \<Rightarrow> vec option) \<Rightarrow> bool \<Rightarrow> int option
     \<Rightarrow> world \<Rightarrow> (image \<times> bool) list \<Rightarrow> error + pipeline" where
  "process_video cfg detect_faces extract_embedding visualize max_frames w frames =
     (case get_all_face_data w of (known, w0) \<Rightarrow>
        (case main_loop cfg detect_faces extract_embedding visualize max_frames
                \<lparr>tracked_people = [], known_embeddings = known, store = w0, timestamp_now = None\<rparr>
                0 frames of
           Inl e \<Rightarrow> Inl e
         | Inr (s, frame_num) \<Rightarrow>
             (case handle_exits cfg (store s) (tracked_people s) frame_num 0 of
                (w', tp') \<Rightarrow> Inr (s\<lparr>store := w', tracked_people := tp'\<rparr>))))"

section \<open>Observations and example data\<close>

text \<open>
  What a trace says about visit records: the pairs of person and action that the program
  asked the store to save, in order.
\<close>

fun visit_inserts :: "event list \<Rightarrow> (person_id \<times> string) list" where
  "visit_inserts [] = []"
| "visit_inserts (VisitInsert person_id action # es) = (person_id, action) # visit_inserts es"
| "visit_inserts (e # es) = visit_inserts es"

text \<open>The same pairs for the records that the store holds.\<close>

definition saved_visits :: "world \<Rightarrow> (person_id \<times> string) list" where
  "saved_visits w = map (\<lambda>v. (v_person_id v, v_action v)) (visit_records w)"

text \<open>\<open>DEFAULT_CONFIG\<close> of config.py.\<close>

definition default_config :: config where
  "default_config =
     \<lparr>detection_skip_frames = 5, detection_conf_threshold = 6 / 10,
      embedding_similarity_threshold = 1 / 2, embedding_diversity_threshold = 8 / 10,
      exit_frame_threshold = 30, save_cropped = True, logs_folder = ''logs''\<rparr>"

text \<open>
  A store with empty collections in a world where no call raises and the clock shows
  the number of the call.
\<close>

definition empty_world :: world where
  "empty_world =
     \<lparr>people = [], face_data = [], visit_records = [], current_number = 0, trace = [],
      raises = (\<lambda>n. False), utcnow = (\<lambda>n. n), uuid4_hex = (\<lambda>n. ''0123456789abcdef''),
      dated_name = (\<lambda>n. ''2024-01-01/120000_01234567.jpg'')\<rparr>"

text \<open>A tracked person last matched in frame \<open>n\<close> and not matched in the present frame.\<close>

definition seen_at :: "int \<Rightarrow> pdata" where
  "seen_at n =
     \<lparr>last_seen_frame = n, bbox = None, last_known_bbox = Some (100, 100, 50, 50),
      last_crop = None, conf = 9 / 10, last_seen_time = 0\<rparr>"

text \<open>A tracked person matched in frame \<open>n\<close> at the box \<open>b\<close>.\<close>

definition tracked_at :: "box \<Rightarrow> int \<Rightarrow> pdata" where
  "tracked_at b n =
     \<lparr>last_seen_frame = n, bbox = Some b, last_known_bbox = Some b,
      last_crop = Some [[0]], conf = 9 / 10, last_seen_time = 0\<rparr>"

text \<open>A store that knows one person, with one embedding.\<close>

definition person1_world :: world where
  "person1_world =
     empty_world\<lparr>people := [\<lparr>p_person_id = ''person1'', first_seen = 0, last_seen = 0, visit_count = 2\<rparr>],
                 face_data := [\<lparr>f_person_id = ''person1'', face_vector = [1, 0], created_time = 0\<rparr>],
                 current_number := 1\<rparr>"

text \<open>The pairs of person and vector that the store holds in \<open>face_data\<close>.\<close>

definition stored_faces :: "world \<Rightarrow> gallery" where
  "stored_faces w = map (\<lambda>d. (f_person_id d, face_vector d)) (face_data w)"

text \<open>
  What holds of every state that \<open>process_video\<close> reaches: when somebody is tracked, the
  gallery is not empty and \<open>timestamp_now\<close> is bound; the dictionary's keys are distinct,
  and no key is the empty string.
\<close>

definition pipeline_inv :: "pipeline \<Rightarrow> bool" where
  "pipeline_inv s =
     ((tracked_people s = [] \<or> (known_embeddings s \<noteq> [] \<and> timestamp_now s \<noteq> None)) \<and>
      distinct (map fst (tracked_people s)) \<and> [] \<notin> fst ` set (tracked_people s))"

text \<open>
  Example data: a frame of four by four pixels, a detector that finds one face in it, an
  embedding model that answers with a unit vector, and the state in which the main loop
  starts on a store \<open>w\<close> that holds no embeddings.
\<close>

definition blank_frame :: image where
  "blank_frame = [[0, 0, 0, 0], [0, 0, 0, 0], [0, 0, 0, 0], [0, 0, 0, 0]]"

definition one_face :: "image \<Rightarrow> detection list" where
  "one_face frame = [(1, 1, 2, 2, 9 / 10)]"

definition unit_embedding :: "image \<Rightarrow> vec option" where
  "unit_embedding crop = Some [1, 0]"

definition start_state :: "world \<Rightarrow> pipeline" where
  "start_state w = \<lparr>tracked_people = [], known_embeddings = [], store = w, timestamp_now = None\<rparr>"

text \<open>
  A store whose third call raises: in the resolution of a first detection the calls are
  \<open>utcnow\<close>, the increment of the counter, and the insert into \<open>people\<close>.
\<close>

definition people_insert_fails :: world where
  "people_insert_fails = empty_world\<lparr>raises := (\<lambda>n. n = 2)\<rparr>"

text \<open>
  The similarities of a candidate to the vectors of a list of documents, as the spec speaks
  of them: one number for each stored embedding.
\<close>

definition similarities :: "vec \<Rightarrow> face_doc list \<Rightarrow> real list" where
  "similarities e docs = map (\<lambda>d. projr (cosine_similarity e (face_vector d))) docs"

text \<open>The store that knows one person and whose next call raises.\<close>

definition query_raises :: world where
  "query_raises = person1_world\<lparr>raises := (\<lambda>n. n = 0)\<rparr>"

text \<open>
  Two people tracked in the present frame, their boxes 40 pixels apart, each with an
  embedding in the gallery.
\<close>

definition two_tracked :: pipeline where
  "two_tracked =
     \<lparr>tracked_people = [(''person1'', tracked_at (100, 100, 30, 30) 1),
                        (''person2'', tracked_at (140, 100, 30, 30) 1)],
      known_embeddings = [(''person1'', [1, 0]), (''person2'', [0, 1])],
      store = person1_world, timestamp_now = Some 0\<rparr>"

text \<open>
  One person tracked in the present frame, known to the gallery and to the store by one
  embedding.
\<close>

definition one_tracked :: pipeline where
  "one_tracked =
     \<lparr>tracked_people = [(''person1'', tracked_at (100, 100, 30, 30) 1)],
      known_embeddings = [(''person1'', [1, 0])],
      store = person1_world, timestamp_now = Some 0\<rparr>"

text \<open>
  What a trace says about the diversity filter: the persons for whom the program asked
  the store for their recent embeddings, in order.
\<close>

fun retention_queries :: "event list \<Rightarrow> person_id list" where
  "retention_queries [] = []"
| "retention_queries (FaceDataFind person_id # es) = person_id # retention_queries es"
| "retention_queries (e # es) = retention_queries es"

text \<open>
  Nobody tracked, and a gallery that knows \<open>person1\<close> by one embedding, as after the
  start on a store that holds this person.
\<close>

definition nobody_tracked :: pipeline where
  "nobody_tracked =
     \<lparr>tracked_people = [], known_embeddings = [(''person1'', [1, 0])],
      store = person1_world, timestamp_now = None\<rparr>"




section \<open>Properties of cosine similarity\<close>

lemma linalg_norm_nonneg: "0 \<le> linalg_norm a"
proof -
  have "0 \<le> (\<Sum>x\<leftarrow>a. x * x)"
    by (induction a) simp_all
  then show ?thesis
    by (simp add: linalg_norm_def)
qed

lemma linalg_norm_unit [simp]:
  "linalg_norm [1, 0] = 1" "linalg_norm [0, 1] = 1" "linalg_norm [0, 0] = 0"
  "linalg_norm [- 1, 0] = 1"
  by (simp_all add: linalg_norm_def)



section \<open>Properties of the best-match query\<close>

lemma find_best_match_loop_ordered:
  "second \<le> best \<Longrightarrow> find_best_match_loop e known (i, best, second) = Inr (i', b', s') \<Longrightarrow> s' \<le> b'"
proof (induction known arbitrary: i best second)
  case Nil
  then show ?case by simp
next
  case (Cons pk known)
  obtain p k where pk: "pk = (p, k)" by (cases pk)
  show ?case
  proof (cases "cosine_similarity e k")
    case (Inl err)
    with Cons.prems pk show ?thesis by simp
  next
    case (Inr sim)
    consider "sim > best" | "\<not> sim > best" "sim > second" | "\<not> sim > best" "\<not> sim > second"
      by blast
    then show ?thesis
    proof cases
      case 1
      then have "best \<le> sim" by simp
      from Cons.IH [OF this, of "Some p"] Cons.prems(2) pk Inr 1 show ?thesis by simp
    next
      case 2
      then have "sim \<le> best" by simp
      from Cons.IH [OF this, of i] Cons.prems(2) pk Inr 2 show ?thesis by simp
    next
      case 3
      from Cons.IH [OF Cons.prems(1), of i] Cons.prems(2) pk Inr 3 show ?thesis by simp
    qed
  qed
qed

lemma cosine_similarity_returns:
  "length k = length e \<Longrightarrow> \<exists>r. cosine_similarity e k = Inr r"
  by (simp add: cosine_similarity_def np_dot_def)

lemma find_best_match_loop_returns:
  "\<forall>(p, k)\<in>set known. length k = length e \<Longrightarrow> \<exists>r. find_best_match_loop e known (i, b, s) = Inr r"
proof (induction known arbitrary: i b s)
  case Nil
  then show ?case by simp
next
  case (Cons pk known)
  obtain p k where pk: "pk = (p, k)" by (cases pk)
  from Cons.prems pk have "length k = length e" by simp
  then obtain r where r: "cosine_similarity e k = Inr r"
    using cosine_similarity_returns by blast
  from Cons.prems have rest: "\<forall>(p, k)\<in>set known. length k = length e" by simp
  show ?case
    using Cons.IH [OF rest] by (simp add: pk r)
qed

text \<open>
  C10. On an empty list the query returns no identifier and \<open>-1\<close> for both
  similarities, which is below every non-negative threshold and is never an embedding
  match. On every list, a returned best similarity is at least the second best; and
  the query does return when the stored vectors have the length of the new one.
\<close>

theorem find_best_match_ordered:
  "find_best_match e [] = Inr (None, - 1, - 1) \<and>
   \<not> embedding_match t (None, - 1, - 1) \<and>
   (0 \<le> t \<longrightarrow> (\<exists>i b s. find_best_match e [] = Inr (i, b, s) \<and> i = None \<and> b < t)) \<and>
   (\<forall>i b s. find_best_match e known = Inr (i, b, s) \<longrightarrow> s \<le> b) \<and>
   ((\<forall>(p, k)\<in>set known. length k = length e) \<longrightarrow>
      (\<exists>i b s. find_best_match e known = Inr (i, b, s) \<and> s \<le> b))"
proof -
  have ordered: "s \<le> b" if "find_best_match e known = Inr (i, b, s)" for i b s
    using that find_best_match_loop_ordered [of "- 1" "- 1" e known None i b s]
    by (simp add: find_best_match_def)
  have returns: "\<exists>i b s. find_best_match e known = Inr (i, b, s) \<and> s \<le> b"
    if "\<forall>(p, k)\<in>set known. length k = length e"
  proof -
    from find_best_match_loop_returns [OF that]
    obtain r where "find_best_match e known = Inr r"
      unfolding find_best_match_def by blast
    then show ?thesis using ordered by (cases r) auto
  qed
  show ?thesis
    using ordered returns by (simp add: find_best_match_def embedding_match_def)
qed

theorem find_best_match_ordered_witness:
  "find_best_match [1, 0] [] = Inr (None, - 1, - 1) \<and>
   (0::real) \<le> 1 / 2 \<and>
   find_best_match [1, 0] [(''person1'', [0, 1]), (''person2'', [1, 0]), (''person3'', [- 1, 0])]
     = Inr (Some ''person2'', 1, 0) \<and> (0::real) \<le> 1"
  using find_best_match_ordered [of "[1, 0]" "1 / 2"
      "[(''person1'', [0, 1]), (''person2'', [1, 0]), (''person3'', [- 1, 0])]"]
  by (simp add: find_best_match_def cosine_similarity_def np_dot_def)

section \<open>Properties of the exit check\<close>

lemma visit_inserts_append [simp]:
  "visit_inserts (es @ fs) = visit_inserts es @ visit_inserts fs"
  by (induction es rule: visit_inserts.induct) simp_all

lemma emit_fields [simp]:
  "trace (emit e w) = trace w @ [e]" "raises (emit e w) = raises w"
  "people (emit e w) = people w" "face_data (emit e w) = face_data w"
  "visit_records (emit e w) = visit_records w" "current_number (emit e w) = current_number w"
  "utcnow (emit e w) = utcnow w" "uuid4_hex (emit e w) = uuid4_hex w"
  "dated_name (emit e w) = dated_name w"
  by (simp_all add: emit_def)

lemma timestamp_iso_fields:
  "timestamp_iso w = (ts, w') \<Longrightarrow>
     trace w' = trace w @ [Utcnow] \<and> raises w' = raises w \<and> visit_records w' = visit_records w \<and>
     people w' = people w \<and> face_data w' = face_data w \<and> current_number w' = current_number w"
  by (auto simp: timestamp_iso_def)

lemma save_cropped_face_fields:
  "save_cropped_face w img prefix folder save = (path, w') \<Longrightarrow>
     visit_inserts (trace w') = visit_inserts (trace w) \<and> raises w' = raises w \<and>
     visit_records w' = visit_records w \<and> people w' = people w \<and> face_data w' = face_data w \<and>
     current_number w' = current_number w \<and> length (trace w) \<le> length (trace w')"
  by (auto simp: save_cropped_face_def Let_def split: if_splits)

lemma save_visit_record_fields:
  "trace (save_visit_record w pid a ts path) = trace w @ [VisitInsert pid a]"
  "raises (save_visit_record w pid a ts path) = raises w"
  "people (save_visit_record w pid a ts path) = people w"
  "face_data (save_visit_record w pid a ts path) = face_data w"
  "current_number (save_visit_record w pid a ts path) = current_number w"
  by (simp_all add: save_visit_record_def)

lemma save_visit_record_saved:
  "\<not> fails w \<Longrightarrow> saved_visits (save_visit_record w pid a ts path) = saved_visits w @ [(pid, a)]"
  by (simp add: save_visit_record_def saved_visits_def)

lemma save_exit_fields:
  "raises (save_exit cfg w pid pd) = raises w"
  "visit_inserts (trace (save_exit cfg w pid pd)) = visit_inserts (trace w) @ [(pid, ''exit'')]"
  "people (save_exit cfg w pid pd) = people w"
  "face_data (save_exit cfg w pid pd) = face_data w"
  "current_number (save_exit cfg w pid pd) = current_number w"
  by (auto simp: save_exit_def save_visit_record_fields split: prod.splits option.splits
      dest!: timestamp_iso_fields save_cropped_face_fields)

lemma save_exit_saved:
  assumes "\<forall>n. \<not> raises w n"
  shows "saved_visits (save_exit cfg w pid pd) = saved_visits w @ [(pid, ''exit'')]"
proof -
  obtain img_path w1 where a: "(case last_crop pd of
              None \<Rightarrow> (None, w)
            | Some crop \<Rightarrow> save_cropped_face w crop ''exits'' (logs_folder cfg) (save_cropped cfg)) = (img_path, w1)"
    by (cases "(case last_crop pd of
              None \<Rightarrow> (None, w)
            | Some crop \<Rightarrow> save_cropped_face w crop ''exits'' (logs_folder cfg) (save_cropped cfg))")
  then have w1: "raises w1 = raises w" "visit_records w1 = visit_records w"
    by (auto split: option.splits dest!: save_cropped_face_fields)
  obtain ts w2 where b: "timestamp_iso w1 = (ts, w2)"
    by (cases "timestamp_iso w1")
  then have w2: "raises w2 = raises w" "visit_records w2 = visit_records w"
    using w1 by (auto dest!: timestamp_iso_fields)
  from assms w2 have "\<not> fails w2" by (simp add: fails_def)
  then show ?thesis
    using a b w2 by (simp add: save_exit_def save_visit_record_saved) (simp add: saved_visits_def)
qed

lemma exit_loop_result:
  "exit_loop cfg w tp F T = (w', to_remove) \<Longrightarrow>
     to_remove = map fst (filter (\<lambda>(pid, pd). F - last_seen_frame pd > T) tp) \<and>
     raises w' = raises w \<and> people w' = people w \<and> face_data w' = face_data w \<and>
     current_number w' = current_number w \<and>
     visit_inserts (trace w') = visit_inserts (trace w) @
       map (\<lambda>(pid, pd). (pid, ''exit'')) (filter (\<lambda>(pid, pd). F - last_seen_frame pd > T) tp)"
proof (induction tp arbitrary: w w' to_remove)
  case Nil
  then show ?case by simp
next
  case (Cons a tp)
  obtain pid pd where a: "a = (pid, pd)" by (cases a)
  show ?case
  proof (cases "F - last_seen_frame pd > T")
    case True
    obtain w1 rm where r: "exit_loop cfg (save_exit cfg w pid pd) tp F T = (w1, rm)"
      by (cases "exit_loop cfg (save_exit cfg w pid pd) tp F T")
    from Cons.IH [OF r] Cons.prems a True r show ?thesis
      by (simp add: save_exit_fields)
  next
    case False
    with Cons.prems a have "exit_loop cfg w tp F T = (w', to_remove)" by simp
    from Cons.IH [OF this] a False show ?thesis by simp
  qed
qed

lemma exit_loop_saved:
  "\<forall>n. \<not> raises w n \<Longrightarrow> exit_loop cfg w tp F T = (w', to_remove) \<Longrightarrow>
     saved_visits w' = saved_visits w @
       map (\<lambda>(pid, pd). (pid, ''exit'')) (filter (\<lambda>(pid, pd). F - last_seen_frame pd > T) tp)"
proof (induction tp arbitrary: w w' to_remove)
  case Nil
  then show ?case by simp
next
  case (Cons a tp)
  obtain pid pd where a: "a = (pid, pd)" by (cases a)
  show ?case
  proof (cases "F - last_seen_frame pd > T")
    case True
    obtain w1 rm where r: "exit_loop cfg (save_exit cfg w pid pd) tp F T = (w1, rm)"
      by (cases "exit_loop cfg (save_exit cfg w pid pd) tp F T")
    have "\<forall>n. \<not> raises (save_exit cfg w pid pd) n"
      using Cons.prems(1) by (simp add: save_exit_fields)
    from Cons.IH [OF this r] Cons.prems a True r show ?thesis
      by (simp add: save_exit_saved)
  next
    case False
    with Cons.prems a have "exit_loop cfg w tp F T = (w', to_remove)" by simp
    from Cons.IH [OF Cons.prems(1) this] a False show ?thesis by simp
  qed
qed

lemma pop_all:
  "foldl (\<lambda>t person_id. AList.delete person_id t) tp ids = filter (\<lambda>(k, v). k \<notin> set ids) tp"
  by (induction ids arbitrary: tp) (auto simp: AList.delete_eq intro: filter_cong)

lemma pop_expired:
  assumes "distinct (map fst tp)"
  shows "filter (\<lambda>(k, v). k \<notin> set (map fst (filter P tp))) tp = filter (\<lambda>kv. \<not> P kv) tp"
proof (rule filter_cong [OF refl])
  fix kv assume kv: "kv \<in> set tp"
  obtain k v where [simp]: "kv = (k, v)" by (cases kv)
  have "P (k, v)" if "(k, v') \<in> set tp" "P (k, v')" for v'
    using assms kv that by (metis \<open>kv = (k, v)\<close> eq_key_imp_eq_value)
  then show "(case kv of (k, v) \<Rightarrow> k \<notin> set (map fst (filter P tp))) = (\<not> P kv)"
    using kv by force
qed

lemma handle_exits_result:
  assumes "distinct (map fst tp)"
  shows "snd (handle_exits cfg w tp F T) = filter (\<lambda>(pid, pd). \<not> F - last_seen_frame pd > T) tp"
    and "visit_inserts (trace (fst (handle_exits cfg w tp F T))) =
       visit_inserts (trace w) @
       map (\<lambda>(pid, pd). (pid, ''exit'')) (filter (\<lambda>(pid, pd). F - last_seen_frame pd > T) tp)"
    and "\<forall>n. \<not> raises w n \<Longrightarrow>
        saved_visits (fst (handle_exits cfg w tp F T)) =
          saved_visits w @
          map (\<lambda>(pid, pd). (pid, ''exit'')) (filter (\<lambda>(pid, pd). F - last_seen_frame pd > T) tp)"
proof -
  obtain w' rm where r: "exit_loop cfg w tp F T = (w', rm)"
    by (cases "exit_loop cfg w tp F T")
  have h: "handle_exits cfg w tp F T = (w', filter (\<lambda>(k, v). k \<notin> set rm) tp)"
    by (simp add: handle_exits_def r pop_all)
  from exit_loop_result [OF r]
  have rm: "rm = map fst (filter (\<lambda>(pid, pd). F - last_seen_frame pd > T) tp)"
    and tr: "visit_inserts (trace w') = visit_inserts (trace w) @
       map (\<lambda>(pid, pd). (pid, ''exit'')) (filter (\<lambda>(pid, pd). F - last_seen_frame pd > T) tp)"
    by simp_all
  have "filter (\<lambda>(k, v). k \<notin> set rm) tp = filter (\<lambda>kv. \<not> (case kv of (pid, pd) \<Rightarrow> F - last_seen_frame pd > T)) tp"
    unfolding rm by (rule pop_expired [OF assms])
  also have "\<dots> = filter (\<lambda>(pid, pd). \<not> F - last_seen_frame pd > T) tp"
    by (rule filter_cong) auto
  finally show "snd (handle_exits cfg w tp F T) = filter (\<lambda>(pid, pd). \<not> F - last_seen_frame pd > T) tp"
    by (simp add: h)
  show "visit_inserts (trace (fst (handle_exits cfg w tp F T))) =
       visit_inserts (trace w) @
       map (\<lambda>(pid, pd). (pid, ''exit'')) (filter (\<lambda>(pid, pd). F - last_seen_frame pd > T) tp)"
    using tr by (simp add: h)
  show "saved_visits (fst (handle_exits cfg w tp F T)) =
          saved_visits w @
          map (\<lambda>(pid, pd). (pid, ''exit'')) (filter (\<lambda>(pid, pd). F - last_seen_frame pd > T) tp)"
    if "\<forall>n. \<not> raises w n"
    using exit_loop_saved [OF that r] by (simp add: h)
qed

text \<open>
  C5. A call of the exit check with current frame \<open>F\<close> and threshold \<open>T\<close> removes
  exactly the tracked people with \<open>F - last_seen_frame > T\<close> and keeps the others
  unchanged, and it asks the store to save one exit record for each removed person, in
  order, and no other visit record; when no call raises, those records are what the
  store gains.
\<close>

theorem handle_exits_exact:
  assumes "distinct (map fst tp)"
  shows "snd (handle_exits cfg w tp F T) = filter (\<lambda>(pid, pd). \<not> F - last_seen_frame pd > T) tp \<and>
     visit_inserts (trace (fst (handle_exits cfg w tp F T))) =
       visit_inserts (trace w) @
       map (\<lambda>(pid, pd). (pid, ''exit'')) (filter (\<lambda>(pid, pd). F - last_seen_frame pd > T) tp) \<and>
     ((\<forall>n. \<not> raises w n) \<longrightarrow>
        saved_visits (fst (handle_exits cfg w tp F T)) =
          saved_visits w @
          map (\<lambda>(pid, pd). (pid, ''exit'')) (filter (\<lambda>(pid, pd). F - last_seen_frame pd > T) tp))"
  using handle_exits_result [OF assms] by blast

theorem handle_exits_exact_witness:
  "distinct (map fst [(''person1'', seen_at 10), (''person2'', seen_at 11)]) \<and>
   snd (handle_exits default_config empty_world
          [(''person1'', seen_at 10), (''person2'', seen_at 11)] 41 30) =
     [(''person2'', seen_at 11)] \<and>
   visit_inserts (trace (fst (handle_exits default_config empty_world
          [(''person1'', seen_at 10), (''person2'', seen_at 11)] 41 30))) = [(''person1'', ''exit'')] \<and>
   saved_visits (fst (handle_exits default_config empty_world
          [(''person1'', seen_at 10), (''person2'', seen_at 11)] 41 30)) = [(''person1'', ''exit'')]"
  using handle_exits_exact [of "[(''person1'', seen_at 10), (''person2'', seen_at 11)]"
      default_config empty_world 41 30]
  by (simp add: seen_at_def empty_world_def saved_visits_def)

section \<open>The tracker's update without detections\<close>

text \<open>
  \<open>update_trackers\<close> first resets every \<open>bbox\<close>, so the loop of its \<open>else\<close> branch, which
  refreshes the people whose \<open>bbox\<close> is set, finds nobody.
\<close>

lemma refresh_loop_reset: "refresh_loop w (reset_bboxes tp) frame_num = (w, reset_bboxes tp)"
  by (induction tp) (auto simp: reset_bboxes_def)

lemma update_trackers_no_detections:
  "current_detections = None \<or> current_detections = Some [] \<Longrightarrow>
     update_trackers w tp frame_num current_detections = (w, reset_bboxes tp)"
  by (auto simp: update_trackers_def refresh_loop_reset)

text \<open>
  C3 (the code departs from the claim). With one tracked person and no detections, an
  empty list or none at all, \<open>update_trackers\<close> leaves the store as it was: no call
  reaches it and the person's \<open>last_seen\<close> keeps its value. Only the person's \<open>bbox\<close> is
  cleared; \<open>last_known_bbox\<close> is not touched.
\<close>

theorem update_trackers_no_detections_refreshes_nobody:
  "update_trackers person1_world [(''person1'', tracked_at (100, 100, 50, 50) 1)] 2 (Some []) =
     (person1_world,
      [(''person1'', (tracked_at (100, 100, 50, 50) 1)\<lparr>bbox := None\<rparr>)]) \<and>
   update_trackers person1_world [(''person1'', tracked_at (100, 100, 50, 50) 1)] 2 None =
     (person1_world,
      [(''person1'', (tracked_at (100, 100, 50, 50) 1)\<lparr>bbox := None\<rparr>)]) \<and>
   map last_seen (people person1_world) = [0] \<and> trace person1_world = []"
  by (simp add: update_trackers_no_detections reset_bboxes_def person1_world_def empty_world_def)

section \<open>Resolution against an empty gallery\<close>

lemma find_best_match_empty: "find_best_match emb [] = Inr (None, - 1, - 1)"
  by (simp add: find_best_match_def)

lemma assign_id_new:
  assumes "known_embeddings s = []" and "position_match (tracked_people s) b = None"
  shows "assign_id cfg s b emb =
     (case timestamp_iso (store s) of (ts, w1) \<Rightarrow>
        (case get_next_person_id w1 of (new_id, w2) \<Rightarrow>
           Inr (new_id, True,
                s\<lparr>store := register_person w2 new_id emb ts, timestamp_now := Some ts,
                  known_embeddings := [(new_id, emb)]\<rparr>)))"
  using assms by (simp add: assign_id_def find_best_match_empty split: prod.splits)


lemma update_one_last_seen_ids [simp]:
  "map p_person_id (update_one_last_seen pid ts ds) = map p_person_id ds"
  by (induction ds) simp_all

lemma resolve_new_person:
  assumes known: "known_embeddings s = []" and tracked: "tracked_people s = []"
    and healthy: "\<forall>n. \<not> raises (store s) n"
  shows "\<exists>s'. resolve cfg frame_num s (x, y, w, h, c) crop emb = Inr s' \<and>
       current_number (store s') = current_number (store s) + 1 \<and>
       known_embeddings s' = [(''person'' @ str_int (current_number (store s) + 1), emb)] \<and>
       map fst (tracked_people s') = [''person'' @ str_int (current_number (store s) + 1)] \<and>
       map last_seen_frame (map snd (tracked_people s')) = [frame_num] \<and>
       map p_person_id (people (store s')) =
         map p_person_id (people (store s)) @ [''person'' @ str_int (current_number (store s) + 1)] \<and>
       stored_faces (store s') =
         stored_faces (store s) @ [(''person'' @ str_int (current_number (store s) + 1), emb)] \<and>
       saved_visits (store s') =
         saved_visits (store s) @ [(''person'' @ str_int (current_number (store s) + 1), ''entry'')] \<and>
       visit_inserts (trace (store s')) =
         visit_inserts (trace (store s)) @ [(''person'' @ str_int (current_number (store s) + 1), ''entry'')] \<and>
       raises (store s') = raises (store s)"
proof -
  have pm: "position_match (tracked_people s) (x, y, w, h) = None"
    by (simp add: tracked)
  show ?thesis
    by (cases "save_cropped cfg")
      (simp_all add: resolve_def assign_id_new [OF known pm] timestamp_iso_def
        get_next_person_id_def register_person_def fails_def log_entry_def tracked
        save_cropped_face_def save_visit_record_def store_if_diverse_def
        refresh_and_register_def update_last_seen_def register_face_def saved_visits_def
        stored_faces_def healthy Let_def)
qed


lemma padding_2: "padding 2 2 = 0"
  by (simp add: padding_def)

lemma blank_frame_shape: "frame_width blank_frame = 4" "frame_height blank_frame = 4"
  by (simp_all add: frame_width_def frame_height_def blank_frame_def)

lemma py_slice_middle: "py_slice [a, b, c, d] 1 3 = [b, c]"
  by (simp add: py_slice_def)

lemma crop_blank: "crop_face blank_frame (1, 1, 2, 2, c) = [[0, 0], [0, 0]]"
  unfolding crop_face_def by (simp add: padding_2 blank_frame_shape) (simp add: blank_frame_def py_slice_middle)


lemma str_int_1: "str_int 1 = ''1''"
  by (simp add: str_int_def str_nat.simps)

section \<open>The exit check at the end of the stream\<close>

lemma exit_loop_nobody:
  "\<forall>(pid, pd)\<in>set tp. \<not> F - last_seen_frame pd > T \<Longrightarrow> exit_loop cfg w tp F T = (w, [])"
  by (induction tp) auto

lemma handle_exits_nobody:
  "\<forall>(pid, pd)\<in>set tp. \<not> F - last_seen_frame pd > T \<Longrightarrow> handle_exits cfg w tp F T = (w, tp)"
  by (simp add: handle_exits_def exit_loop_nobody)

lemma seen_in_frame:
  assumes "map last_seen_frame (map snd tp) = [F]" and "0 \<le> T"
  shows "\<forall>(pid, pd)\<in>set tp. \<not> F - last_seen_frame pd > T"
proof -
  from assms(1) obtain p where "tp = [p]" "last_seen_frame (snd p) = F"
    by (cases tp) auto
  with assms(2) show ?thesis by (cases p) simp
qed

text \<open>
  C4. The exit check at the end of the stream, \<open>handle_exits frame_num 0\<close>, does not
  force every tracked person to exit: the test is the strict \<open>frame_num - last_seen_frame > 0\<close>,
  so a person matched in the final frame stays in the tracked set and no exit record is
  written for them. On a video of one frame with one face and an empty store, the run ends
  with \<open>person1\<close> still tracked and with the entry record as the only visit record.
\<close>

theorem final_exit_check_misses_last_frame:
  "\<exists>s. process_video default_config one_face unit_embedding False None empty_world
          [(blank_frame, False)] = Inr s \<and>
       map fst (tracked_people s) = [''person1''] \<and>
       visit_inserts (trace (store s)) = [(''person1'', ''entry'')] \<and>
       saved_visits (store s) = [(''person1'', ''entry'')]"
proof -
  define w0 where "w0 = emit FaceDataFindAll empty_world"
  have load: "get_all_face_data empty_world = ([], w0)"
    by (simp add: get_all_face_data_def fails_def empty_world_def w0_def)
  have s0: "\<lparr>tracked_people = [], known_embeddings = [], store = w0, timestamp_now = None\<rparr> = start_state w0"
    by (simp add: start_state_def)
  have w0: "\<forall>n. \<not> raises (store (start_state w0)) n" "current_number (store (start_state w0)) + 1 = 1"
    "saved_visits (store (start_state w0)) = []" "visit_inserts (trace (store (start_state w0))) = []"
    by (simp_all add: start_state_def w0_def empty_world_def saved_visits_def)
  have "known_embeddings (start_state w0) = []" "tracked_people (start_state w0) = []"
    by (simp_all add: start_state_def)
  from resolve_new_person [OF this w0(1), of default_config 1 1 1 2 2 "9 / 10" "[[0, 0], [0, 0]]" "[1, 0]"]
  obtain s' where r: "resolve default_config 1 (start_state w0) (1, 1, 2, 2, 9 / 10) [[0, 0], [0, 0]] [1, 0] = Inr s'"
    and ids: "map fst (tracked_people s') = [''person1'']"
    and seen: "map last_seen_frame (map snd (tracked_people s')) = [1]"
    and saved: "saved_visits (store s') = [(''person1'', ''entry'')]"
    and asked: "visit_inserts (trace (store s')) = [(''person1'', ''entry'')]"
    unfolding w0 by (auto simp: str_int_1)
  have det: "process_detection default_config unit_embedding blank_frame 1 (start_state w0)
      (1, 1, 2, 2, 9 / 10) = Inr s'"
  proof -
    have c: "(9 / 10 :: real) \<ge> detection_conf_threshold default_config"
      by (simp add: default_config_def)
    show ?thesis
      using c by (simp add: process_detection_def crop_blank image_size_def unit_embedding_def r)
  qed
  have upd: "update_trackers w0 [] 1 (Some [(1, 1, 2, 2, 9 / 10)]) = (w0, [])"
    by (simp add: update_trackers_def reset_bboxes_def assign_detections_to_tracks_def)
  have st: "(start_state w0)\<lparr>store := w0, tracked_people := []\<rparr> = start_state w0"
    by (simp add: start_state_def)
  have keep: "handle_exits default_config (store s') (tracked_people s') 1 T = (store s', tracked_people s')"
    if "0 \<le> T" for T
    by (rule handle_exits_nobody [OF seen_in_frame [OF seen that]])
  have frame: "process_frame default_config one_face unit_embedding (start_state w0) blank_frame 1 = Inr s'"
  proof -
    have f: "store (start_state w0) = w0" "tracked_people (start_state w0) = []"
      "(0::int) \<le> exit_frame_threshold default_config"
      by (simp_all add: start_state_def default_config_def)
    show ?thesis
      by (simp add: process_frame_def one_face_def f upd st det keep [OF f(3)])
  qed
  have "process_video default_config one_face unit_embedding False None empty_world
          [(blank_frame, False)] = Inr s'"
    by (simp add: process_video_def load s0 frame keep)
  with ids saved asked show ?thesis by simp
qed

section \<open>Failed writes and the in-memory gallery\<close>

text \<open>
  The insert of \<open>process_video\<close> itself appends to \<open>known_embeddings\<close> only after the
  insert has returned: the gallery is unchanged, or it gained the pair that the store
  gained.
\<close>

lemma store_if_diverse_gallery:
  "known_embeddings (store_if_diverse cfg s pid new emb) = known_embeddings s \<or>
   (known_embeddings (store_if_diverse cfg s pid new emb) = known_embeddings s @ [(pid, emb)] \<and>
    stored_faces (store (store_if_diverse cfg s pid new emb)) =
      stored_faces (snd (should_store_embedding cfg (store s) pid emb)) @ [(pid, emb)])"
  by (auto simp: store_if_diverse_def insert_face_data_def stored_faces_def
      split: prod.splits option.splits if_splits)

lemma resolve_registration_fails:
  assumes known: "known_embeddings s = []" and tracked: "tracked_people s = []"
    and broken: "raises (store s) = (\<lambda>n. n = length (trace (store s)) + 2)"
  shows "\<exists>s'. resolve cfg frame_num s (x, y, w, h, c) crop emb = Inr s' \<and>
       known_embeddings s' = [(''person'' @ str_int (current_number (store s) + 1), emb)] \<and>
       stored_faces (store s') = stored_faces (store s) \<and>
       map p_person_id (people (store s')) = map p_person_id (people (store s)) \<and>
       PeopleInsert (''person'' @ str_int (current_number (store s) + 1)) \<in> set (trace (store s')) \<and>
       (\<forall>v. FaceDataInsert (''person'' @ str_int (current_number (store s) + 1)) v \<notin> set (trace (store s')) - set (trace (store s)))"
proof -
  have pm: "position_match (tracked_people s) (x, y, w, h) = None"
    by (simp add: tracked)
  show ?thesis
    by (cases "save_cropped cfg")
      (simp_all add: resolve_def assign_id_new [OF known pm] timestamp_iso_def
        get_next_person_id_def register_person_def fails_def log_entry_def tracked
        save_cropped_face_def save_visit_record_def store_if_diverse_def
        refresh_and_register_def update_last_seen_def register_face_def saved_visits_def
        stored_faces_def broken Let_def)
qed

text \<open>
  C9. A failed registration does advance the in-memory gallery: \<open>register_person\<close>
  catches the exception of its insert and returns, and \<open>process_video\<close> appends the
  pair to \<open>known_embeddings\<close> whatever happened. With a store whose insert into
  \<open>people\<close> raises, the first detection leaves \<open>person1\<close> in the gallery while the
  store holds neither the person nor the embedding.
\<close>

theorem failed_registration_still_enters_gallery:
  "\<exists>s'. process_detection default_config unit_embedding blank_frame 1
          (start_state people_insert_fails) (1, 1, 2, 2, 9 / 10) = Inr s' \<and>
        known_embeddings s' = [(''person1'', [1, 0])] \<and>
        stored_faces (store s') = [] \<and> people (store s') = [] \<and>
        PeopleInsert ''person1'' \<in> set (trace (store s'))"
proof -
  have h: "known_embeddings (start_state people_insert_fails) = []"
    "tracked_people (start_state people_insert_fails) = []"
    "raises (store (start_state people_insert_fails)) =
       (\<lambda>n. n = length (trace (store (start_state people_insert_fails))) + 2)"
    by (simp_all add: start_state_def people_insert_fails_def empty_world_def numeral_2_eq_2)
  have c: "current_number (store (start_state people_insert_fails)) + 1 = 1"
    "stored_faces (store (start_state people_insert_fails)) = []"
    "people (store (start_state people_insert_fails)) = []"
    by (simp_all add: start_state_def people_insert_fails_def empty_world_def stored_faces_def)
  have t: "(9 / 10 :: real) \<ge> detection_conf_threshold default_config"
    by (simp add: default_config_def)
  have "process_detection default_config unit_embedding blank_frame 1
          (start_state people_insert_fails) (1, 1, 2, 2, 9 / 10) =
        resolve default_config 1 (start_state people_insert_fails) (1, 1, 2, 2, 9 / 10)
          [[0, 0], [0, 0]] [1, 0]"
    using t by (simp add: process_detection_def crop_blank image_size_def unit_embedding_def)
  then show ?thesis
    using resolve_registration_fails [OF h, of default_config 1 1 1 2 2 "9 / 10" "[[0, 0], [0, 0]]" "[1, 0]"]
    unfolding c by (auto simp: str_int_1)
qed

section \<open>Properties of the diversity filter\<close>

lemma Max_insert_max:
  "finite S \<Longrightarrow> Max (insert (max a b) S) = Max (insert a (insert b S))"
  for a :: real
  by (cases "S = {}") (simp_all add: max.assoc)

lemma max_sim_loop_Max:
  "\<forall>d\<in>set docs. length (face_vector d) = length e \<Longrightarrow>
   max_sim_loop e docs m = Inr (Max (insert m (set (similarities e docs))))"
proof (induction docs arbitrary: m)
  case Nil
  then show ?case by (simp add: similarities_def)
next
  case (Cons d ds)
  from Cons.prems obtain r where r: "cosine_similarity e (face_vector d) = Inr r"
    using cosine_similarity_returns [of "face_vector d" e] by auto
  from Cons.prems have "\<forall>d\<in>set ds. length (face_vector d) = length e" by simp
  from Cons.IH [OF this, of "max m r"] r show ?case
    using Max_insert_max [of "set (similarities e ds)" m r]
    by (simp add: similarities_def)
qed

lemma should_store_embedding_max:
  assumes "\<not> fails w" and "recent_face_data w pid \<noteq> []"
    and "\<forall>d\<in>set (recent_face_data w pid). length (face_vector d) = length e"
  shows "fst (should_store_embedding cfg w pid e) =
     (max 0 (Max (set (similarities e (recent_face_data w pid)))) < embedding_diversity_threshold cfg)"
proof -
  from assms(2) have ne: "set (similarities e (recent_face_data w pid)) \<noteq> {}"
    by (simp add: similarities_def)
  show ?thesis
    using assms(1,2) ne
    by (simp add: should_store_embedding_def Let_def max_sim_loop_Max [OF assms(3)])
qed

lemma should_store_embedding_error:
  "fails w \<Longrightarrow> fst (should_store_embedding cfg w pid e)"
  by (simp add: should_store_embedding_def Let_def)

lemma should_store_embedding_no_history:
  "recent_face_data w pid = [] \<Longrightarrow> fst (should_store_embedding cfg w pid e)"
  by (simp add: should_store_embedding_def Let_def)

lemma recent_person1:
  "recent_face_data (person1_world\<lparr>raises := f\<rparr>) ''person1'' =
     [\<lparr>f_person_id = ''person1'', face_vector = [1, 0], created_time = 0\<rparr>]"
  by (simp add: recent_face_data_def person1_world_def empty_world_def)

text \<open>
  C6, as stated, fails when the query of the store raises: \<open>should_store_embedding\<close>
  answers \<open>True\<close> (``store by default on error''), although the person's only stored
  embedding has similarity 1 to the candidate, which is not below the threshold 0.8.
\<close>

theorem failed_query_retains_similar_embedding:
  "recent_face_data query_raises ''person1'' \<noteq> [] \<and>
   Max (set (similarities [1, 0] (recent_face_data query_raises ''person1''))) = 1 \<and>
   embedding_diversity_threshold default_config \<le> 1 \<and>
   fst (should_store_embedding default_config query_raises ''person1'' [1, 0])"
proof -
  have "fails query_raises"
    by (simp add: fails_def query_raises_def person1_world_def empty_world_def)
  then have "fst (should_store_embedding default_config query_raises ''person1'' [1, 0])"
    by (rule should_store_embedding_error)
  moreover have "cosine_similarity [1, 0] [1, 0] = Inr 1"
    by (simp add: cosine_similarity_def np_dot_def)
  ultimately show ?thesis
    by (simp add: query_raises_def recent_person1 similarities_def default_config_def)
qed

text \<open>
  C6, amended. When the stored vectors have the length of the candidate and the diversity
  threshold is positive, the candidate is retained exactly when the query of the store
  raises, or the person has no stored embedding, or the maximum similarity of the candidate
  to the person's ten most recent stored embeddings is strictly below the threshold. So,
  when the query returns and the history is not empty, a maximum at or above the threshold
  is never retained.
\<close>

theorem should_store_embedding_decision:
  assumes "\<forall>d\<in>set (recent_face_data w pid). length (face_vector d) = length e"
    and "0 < embedding_diversity_threshold cfg"
  shows "fst (should_store_embedding cfg w pid e) =
     (fails w \<or> recent_face_data w pid = [] \<or>
      Max (set (similarities e (recent_face_data w pid))) < embedding_diversity_threshold cfg)"
proof (cases "fails w \<or> recent_face_data w pid = []")
  case True
  then show ?thesis
    using should_store_embedding_error should_store_embedding_no_history by auto
next
  case False
  then have "fst (should_store_embedding cfg w pid e) =
     (max 0 (Max (set (similarities e (recent_face_data w pid)))) < embedding_diversity_threshold cfg)"
    using should_store_embedding_max [OF _ _ assms(1)] by simp
  with False assms(2) show ?thesis by auto
qed

theorem should_store_embedding_decision_witness:
  "map (length \<circ> face_vector) (recent_face_data person1_world ''person1'') = [length [0, 1 :: real]] \<and>
   0 < embedding_diversity_threshold default_config \<and>
   \<not> fails person1_world \<and>
   similarities [0, 1] (recent_face_data person1_world ''person1'') = [0] \<and>
   fst (should_store_embedding default_config person1_world ''person1'' [0, 1]) \<and>
   similarities [1, 0] (recent_face_data person1_world ''person1'') = [1] \<and>
   \<not> fst (should_store_embedding default_config person1_world ''person1'' [1, 0])"
proof -
  have r: "recent_face_data person1_world ''person1'' =
     [\<lparr>f_person_id = ''person1'', face_vector = [1, 0], created_time = 0\<rparr>]"
    using recent_person1 [of "raises person1_world"] by simp
  have h: "\<forall>d\<in>set (recent_face_data person1_world ''person1''). length (face_vector d) = length [0, 1 :: real]"
    "\<forall>d\<in>set (recent_face_data person1_world ''person1''). length (face_vector d) = length [1, 0 :: real]"
    "0 < embedding_diversity_threshold default_config"
    by (simp_all add: r default_config_def)
  have f: "\<not> fails person1_world"
    by (simp add: fails_def person1_world_def empty_world_def)
  have c: "cosine_similarity [0, 1] [1, 0] = Inr 0" "cosine_similarity [1, 0] [1, 0] = Inr 1"
    by (simp_all add: cosine_similarity_def np_dot_def)
  show ?thesis
    using should_store_embedding_decision [OF h(1) h(3)]
      should_store_embedding_decision [OF h(2) h(3)] f
    by (simp add: r similarities_def c default_config_def)
qed

section \<open>Properties of the position loop\<close>

lemma sqrt_less_pos: "0 < r \<Longrightarrow> sqrt x < r \<longleftrightarrow> x < r\<^sup>2"
proof -
  assume "0 < r"
  then have "sqrt x < r \<longleftrightarrow> sqrt x < sqrt (r\<^sup>2)" by simp
  also have "\<dots> \<longleftrightarrow> x < r\<^sup>2" by (rule real_sqrt_less_iff)
  finally show ?thesis .
qed

lemma center_distance_less:
  "0 < r \<Longrightarrow> center_distance (ax, ay, aw, ah) (bx, by, bw, bh) < r \<longleftrightarrow>
     ((real_of_int ax + real_of_int aw / 2) - (real_of_int bx + real_of_int bw / 2))\<^sup>2 +
     ((real_of_int ay + real_of_int ah / 2) - (real_of_int by + real_of_int bh / 2))\<^sup>2 < r\<^sup>2"
  by (simp add: center_distance_def sqrt_less_pos)

lemma position_match_first:
  assumes "\<forall>(q, qd)\<in>set before. \<forall>b. bbox qd = Some b \<longrightarrow> \<not> center_distance b det < 50"
    and "bbox pd = Some b" and "center_distance b det < 50"
  shows "position_match (before @ (pid, pd) # rest) det = Some pid"
  using assms by (induction before) (auto split: option.splits)

text \<open>
  C1, as stated, fails when two tracked people are within 50 pixels of the detection: the
  position loop stops at the first one in the order of the dictionary. Here the detection
  lies exactly on the box of \<open>person2\<close>, and its embedding is the one of \<open>person2\<close>, yet
  the identity assigned is \<open>person1\<close>, whose box is 40 pixels away.
\<close>

theorem nearer_tracked_person_loses:
  "last_known_bbox (the (map_of (tracked_people two_tracked) ''person2'')) = Some (140, 100, 30, 30) \<and>
   center_distance (140, 100, 30, 30) (140, 100, 30, 30) = 0 \<and>
   find_best_match [0, 1] (known_embeddings two_tracked) = Inr (Some ''person2'', 1, 0) \<and>
   assign_id default_config two_tracked (140, 100, 30, 30) [0, 1] = Inr (''person1'', False, two_tracked)"
proof -
  have "center_distance (100, 100, 30, 30) (140, 100, 30, 30) < 50"
    by (simp add: center_distance_less)
  then have "position_match (tracked_people two_tracked) (140, 100, 30, 30) = Some ''person1''"
    by (simp add: two_tracked_def tracked_at_def)
  then have "assign_id default_config two_tracked (140, 100, 30, 30) [0, 1] =
      Inr (''person1'', False, two_tracked)"
    by (simp add: assign_id_def)
  moreover have "center_distance (140, 100, 30, 30) (140, 100, 30, 30) = 0"
    by (simp add: center_distance_def)
  moreover have "find_best_match [0, 1] (known_embeddings two_tracked) = Inr (Some ''person2'', 1, 0)"
    by (simp add: two_tracked_def find_best_match_def cosine_similarity_def np_dot_def)
  ultimately show ?thesis
    by (simp add: two_tracked_def tracked_at_def)
qed

text \<open>
  C1, amended. The identity assigned to a detection is the identifier of the first tracked
  person, in the order of the tracked set, whose box of the present frame is set and has
  its centre less than 50 pixels from the centre of the detection; the gallery is not
  queried, nobody is registered, and the state is unchanged by the assignment.
\<close>

theorem spatial_precedence:
  assumes "tracked_people s = before @ (pid, pd) # rest"
    and "\<forall>(q, qd)\<in>set before. \<forall>b. bbox qd = Some b \<longrightarrow> \<not> center_distance b det < 50"
    and "bbox pd = Some b" and "center_distance b det < 50"
    and "pid \<noteq> []"
  shows "assign_id cfg s det emb = Inr (pid, False, s)"
  using position_match_first [OF assms(2,3,4), of pid rest] assms(1,5)
  by (simp add: assign_id_def)

theorem spatial_precedence_witness:
  "tracked_people two_tracked =
     [(''person1'', tracked_at (100, 100, 30, 30) 1)] @
     (''person2'', tracked_at (140, 100, 30, 30) 1) # [] \<and>
   \<not> center_distance (100, 100, 30, 30) (160, 100, 30, 30) < 50 \<and>
   bbox (tracked_at (140, 100, 30, 30) 1) = Some (140, 100, 30, 30) \<and>
   center_distance (140, 100, 30, 30) (160, 100, 30, 30) < 50 \<and>
   assign_id default_config two_tracked (160, 100, 30, 30) [1, 0] = Inr (''person2'', False, two_tracked)"
proof -
  have h: "tracked_people two_tracked =
     [(''person1'', tracked_at (100, 100, 30, 30) 1)] @
     (''person2'', tracked_at (140, 100, 30, 30) 1) # []"
    "\<forall>(q, qd)\<in>set [(''person1'', tracked_at (100, 100, 30, 30) 1)].
       \<forall>b. bbox qd = Some b \<longrightarrow> \<not> center_distance b (160, 100, 30, 30) < 50"
    "bbox (tracked_at (140, 100, 30, 30) 1) = Some (140, 100, 30, 30)"
    "center_distance (140, 100, 30, 30) (160, 100, 30, 30) < 50"
    "''person2'' \<noteq> []"
    by (simp_all add: two_tracked_def tracked_at_def center_distance_less)
  have n: "\<not> center_distance (100, 100, 30, 30) (160, 100, 30, 30) < 50"
    by (simp add: center_distance_less)
  from spatial_precedence [OF h, of default_config "[1, 0]"] h(1,3,4) n
  show ?thesis by simp
qed

section \<open>A position match and the diversity filter\<close>

lemma position_match_mem:
  "position_match tp det = Some pid \<Longrightarrow> pid \<in> fst ` set tp"
  by (induction tp) (auto split: option.splits if_splits)

lemma should_store_embedding_world:
  "snd (should_store_embedding cfg w pid e) = emit (FaceDataFind pid) w"
  by (simp add: should_store_embedding_def Let_def split: sum.splits)

lemma resolve_spatial_match:
  assumes "position_match (tracked_people s) (x, y, w, h) = Some pid" and "pid \<noteq> []"
  shows "resolve cfg frame_num s (x, y, w, h, c) crop emb =
     refresh_and_register (store_if_diverse cfg s pid False emb) pid (x, y, w, h, c) crop frame_num"
  using assms position_match_mem [OF assms(1)]
  by (simp add: resolve_def assign_id_def log_entry_def)

lemma store_if_diverse_offer:
  assumes "timestamp_now s = Some ts"
    and "should_store_embedding cfg (store s) pid emb = (keep, w1)"
  shows "known_embeddings (store_if_diverse cfg s pid False emb) =
       (if keep \<and> \<not> fails w1 then known_embeddings s @ [(pid, emb)] else known_embeddings s)"
    and "trace (store (store_if_diverse cfg s pid False emb)) =
       trace (store s) @ [FaceDataFind pid] @ (if keep then [FaceDataInsert pid emb] else [])"
    and "timestamp_now (store_if_diverse cfg s pid False emb) = Some ts"
    and "stored_faces (store (store_if_diverse cfg s pid False emb)) =
       (if keep \<and> \<not> fails w1 then stored_faces (store s) @ [(pid, emb)] else stored_faces (store s))"
proof -
  from should_store_embedding_world [of cfg "store s" pid emb] assms(2)
  have w1: "w1 = emit (FaceDataFind pid) (store s)" by simp
  show "known_embeddings (store_if_diverse cfg s pid False emb) =
       (if keep \<and> \<not> fails w1 then known_embeddings s @ [(pid, emb)] else known_embeddings s)"
    using assms by (simp add: store_if_diverse_def insert_face_data_def)
  show "trace (store (store_if_diverse cfg s pid False emb)) =
       trace (store s) @ [FaceDataFind pid] @ (if keep then [FaceDataInsert pid emb] else [])"
    using assms by (simp add: store_if_diverse_def insert_face_data_def w1)
  show "timestamp_now (store_if_diverse cfg s pid False emb) = Some ts"
    using assms by (simp add: store_if_diverse_def insert_face_data_def)
  show "stored_faces (store (store_if_diverse cfg s pid False emb)) =
       (if keep \<and> \<not> fails w1 then stored_faces (store s) @ [(pid, emb)] else stored_faces (store s))"
    using assms by (simp add: store_if_diverse_def insert_face_data_def stored_faces_def w1)
qed

lemma refresh_and_register_fields:
  assumes "timestamp_now s = Some ts"
  shows "\<exists>s'. refresh_and_register s pid (x, y, w, h, c) crop frame_num = Inr s' \<and>
       known_embeddings s' = known_embeddings s \<and>
       trace (store s') = trace (store s) @ [PeopleUpdate pid ts] \<and>
       stored_faces (store s') = stored_faces (store s)"
  using assms by (simp add: refresh_and_register_def update_last_seen_def stored_faces_def)

lemma store_if_diverse_new: "store_if_diverse cfg s pid True emb = s"
  by (simp add: store_if_diverse_def)

lemma keep_person1:
  "should_store_embedding default_config person1_world ''person1'' [0, 1] =
     (True, emit (FaceDataFind ''person1'') person1_world)"
proof -
  have "recent_face_data person1_world ''person1'' =
     [\<lparr>f_person_id = ''person1'', face_vector = [1, 0], created_time = 0\<rparr>]"
    using recent_person1 [of "raises person1_world"] by simp
  moreover have "cosine_similarity [0, 1] [1, 0] = Inr 0"
    by (simp add: cosine_similarity_def np_dot_def)
  moreover have "\<not> fails person1_world"
    by (simp add: fails_def person1_world_def empty_world_def)
  ultimately show ?thesis
    by (simp add: should_store_embedding_def default_config_def)
qed

lemma one_tracked_match:
  "position_match (tracked_people one_tracked) (100, 100, 30, 30) = Some ''person1''"
  by (simp add: one_tracked_def tracked_at_def center_distance_def)

text \<open>
  C2, as stated, fails: a detection resolved by the position loop has \<open>is_new_person\<close>
  false, so its embedding is offered to the diversity filter. Here the tracked
  \<open>person1\<close>, stored with the embedding \<open>[1, 0]\<close>, is matched by position with the
  embedding \<open>[0, 1]\<close>: the store is queried for the person's embeddings, the new one is
  inserted, and the gallery grows.
\<close>

theorem spatial_match_grows_gallery:
  "position_match (tracked_people one_tracked) (100, 100, 30, 30) = Some ''person1'' \<and>
   map_sum id known_embeddings
     (resolve default_config 5 one_tracked (100, 100, 30, 30, 9 / 10) [[0]] [0, 1]) =
     Inr [(''person1'', [1, 0]), (''person1'', [0, 1])] \<and>
   map_sum id (trace \<circ> store)
     (resolve default_config 5 one_tracked (100, 100, 30, 30, 9 / 10) [[0]] [0, 1]) =
     Inr [FaceDataFind ''person1'', FaceDataInsert ''person1'' [0, 1], PeopleUpdate ''person1'' 0]"
proof -
  have ts: "timestamp_now one_tracked = Some 0" by (simp add: one_tracked_def)
  have k: "should_store_embedding default_config (store one_tracked) ''person1'' [0, 1] =
     (True, emit (FaceDataFind ''person1'') person1_world)"
    using keep_person1 by (simp add: one_tracked_def)
  have f: "\<not> fails (emit (FaceDataFind ''person1'') person1_world)"
    by (simp add: fails_def person1_world_def empty_world_def)
  note o = store_if_diverse_offer [OF ts k]
  from refresh_and_register_fields [OF o(3), of "''person1''" 100 100 30 30 "9 / 10" "[[0]]" 5]
  obtain s' where "refresh_and_register
      (store_if_diverse default_config one_tracked ''person1'' False [0, 1]) ''person1''
      (100, 100, 30, 30, 9 / 10) [[0]] 5 = Inr s'"
    and "known_embeddings s' = [(''person1'', [1, 0]), (''person1'', [0, 1])]"
    and "trace (store s') =
      [FaceDataFind ''person1'', FaceDataInsert ''person1'' [0, 1], PeopleUpdate ''person1'' 0]"
    using o(1,2) f by (auto simp: one_tracked_def person1_world_def empty_world_def)
  then show ?thesis
    using resolve_spatial_match [OF one_tracked_match, of default_config 5 "9 / 10" "[[0]]" "[0, 1]"]
      one_tracked_match by simp
qed

section \<open>The invariant of the pipeline\<close>

text \<open>
  \<open>pipeline_inv\<close> holds of the state in which \<open>process_video\<close> starts and is kept by every
  step that returns: the resolution of a detection, the tracker's update, the exit check,
  a whole frame, and the main loop.
\<close>

lemma reset_bboxes_keys: "map fst (reset_bboxes tp) = map fst tp"
  by (induction tp) (auto simp: reset_bboxes_def)

lemma assign_loop_keys: "map fst (assign_loop tp ds n a) = map fst tp"
  by (induction tp ds n a rule: assign_loop.induct) (auto split: option.splits prod.splits)

lemma refresh_loop_keys: "map fst (snd (refresh_loop w tp n)) = map fst tp"
  by (induction w tp n rule: refresh_loop.induct) (auto split: option.splits prod.splits)

lemma update_trackers_keys:
  "map fst (snd (update_trackers w tp n ds)) = map fst tp"
  by (simp add: update_trackers_def assign_detections_to_tracks_def assign_loop_keys
      refresh_loop_keys reset_bboxes_keys Let_def split: option.splits list.splits)

lemma handle_exits_keys:
  "distinct (map fst tp) \<Longrightarrow> distinct (map fst (snd (handle_exits cfg w tp F T)))"
  "set (snd (handle_exits cfg w tp F T)) \<subseteq> set tp"
proof -
  obtain w' rm where r: "exit_loop cfg w tp F T = (w', rm)"
    by (cases "exit_loop cfg w tp F T")
  have h: "handle_exits cfg w tp F T = (w', filter (\<lambda>(k, v). k \<notin> set rm) tp)"
    by (simp add: handle_exits_def r pop_all)
  show "distinct (map fst tp) \<Longrightarrow> distinct (map fst (snd (handle_exits cfg w tp F T)))"
    by (simp add: h distinct_map_filter)
  show "set (snd (handle_exits cfg w tp F T)) \<subseteq> set tp"
    by (auto simp: h)
qed

lemma keys_inv:
  assumes "pipeline_inv s" and "map fst tp = map fst (tracked_people s)"
  shows "pipeline_inv (s\<lparr>store := w, tracked_people := tp\<rparr>)"
proof -
  from assms(2) have "fst ` set tp = fst ` set (tracked_people s)"
    by (metis set_map)
  moreover from assms(2) have "tp = [] \<longleftrightarrow> tracked_people s = []"
    by (metis map_is_Nil_conv)
  ultimately show ?thesis using assms by (simp add: pipeline_inv_def)
qed

lemma subset_inv:
  assumes "pipeline_inv s" and "distinct (map fst tp)" and "set tp \<subseteq> set (tracked_people s)"
  shows "pipeline_inv (s\<lparr>store := w, tracked_people := tp\<rparr>)"
  using assms by (auto simp: pipeline_inv_def)

lemma position_match_nonempty: "position_match tp det = Some pid \<Longrightarrow> tp \<noteq> []"
  by (cases tp) auto

lemma find_best_match_loop_id:
  "find_best_match_loop e known (i, b, s) = Inr (Some pid, b', s') \<Longrightarrow> i = None \<Longrightarrow> known \<noteq> []"
  by (cases known) auto

lemma find_best_match_id:
  "find_best_match e known = Inr (Some pid, b, s) \<Longrightarrow> known \<noteq> []"
  by (auto simp: find_best_match_def dest: find_best_match_loop_id)

lemma get_next_person_id_nonempty: "fst (get_next_person_id w) \<noteq> []"
  by (simp add: get_next_person_id_def Let_def)

lemma assign_id_embedding_branch:
  assumes pm: "\<not> truthy_id (position_match (tracked_people s) b)"
    and a: "assign_id cfg s b emb = Inr (pid, new, s1)"
  shows "pid \<noteq> [] \<and> known_embeddings s1 \<noteq> [] \<and> tracked_people s1 = tracked_people s \<and>
     timestamp_now s1 \<noteq> None"
proof -
  from pm a obtain bi bs ss where fb: "find_best_match emb (known_embeddings s) = Inr (bi, bs, ss)"
    by (cases "find_best_match emb (known_embeddings s)") (auto simp: assign_id_def)
  obtain nid w2 where g: "get_next_person_id (emit Utcnow (store s)) = (nid, w2)"
    by (cases "get_next_person_id (emit Utcnow (store s))")
  from get_next_person_id_nonempty [of "emit Utcnow (store s)"] g have nid: "nid \<noteq> []"
    by simp
  show ?thesis
  proof (cases "bs \<ge> embedding_similarity_threshold cfg \<and> truthy_id bi")
    case True
    then obtain q where q: "bi = Some q" "q \<noteq> []" by (cases bi) auto
    from pm a fb g True q have "pid = q" "s1 = s\<lparr>store := emit Utcnow (store s),
        timestamp_now := Some (utcnow (store s) (length (trace (store s))))\<rparr>"
      by (simp_all add: assign_id_def timestamp_iso_def)
    with q find_best_match_id [of emb "known_embeddings s" q bs ss] fb show ?thesis by simp
  next
    case False
    with pm a fb g have "pid = nid" "s1 = s\<lparr>store := register_person w2 nid emb
           (utcnow (store s) (length (trace (store s)))),
        timestamp_now := Some (utcnow (store s) (length (trace (store s)))),
        known_embeddings := known_embeddings s @ [(nid, emb)]\<rparr>"
      by (auto simp: assign_id_def timestamp_iso_def)
    with nid show ?thesis by simp
  qed
qed

lemma assign_id_position_branch:
  assumes pm: "truthy_id (position_match (tracked_people s) b)"
    and a: "assign_id cfg s b emb = Inr (pid, new, s1)"
  shows "pid \<noteq> [] \<and> s1 = s \<and> pid \<in> fst ` set (tracked_people s) \<and> \<not> new"
proof -
  from pm obtain q where q: "position_match (tracked_people s) b = Some q" "q \<noteq> []"
    by (cases "position_match (tracked_people s) b") auto
  with a have "pid = q" "s1 = s" "\<not> new" by (simp_all add: assign_id_def)
  with q position_match_mem [OF q(1)] show ?thesis by simp
qed

lemma log_entry_fields:
  assumes "log_entry cfg s pid crop = Inr s2"
  shows "tracked_people s2 = tracked_people s \<and> known_embeddings s2 = known_embeddings s \<and>
     timestamp_now s2 = timestamp_now s"
  using assms
  by (auto simp: log_entry_def split: if_splits prod.splits option.splits)

lemma store_if_diverse_fields:
  "tracked_people (store_if_diverse cfg s pid new emb) = tracked_people s \<and>
   timestamp_now (store_if_diverse cfg s pid new emb) = timestamp_now s \<and>
   (known_embeddings s \<noteq> [] \<longrightarrow> known_embeddings (store_if_diverse cfg s pid new emb) \<noteq> [])"
  by (auto simp: store_if_diverse_def split: prod.splits option.splits)

lemma refresh_and_register_inv:
  assumes "refresh_and_register s pid det crop n = Inr s'"
    and "known_embeddings s \<noteq> []" and "pid \<noteq> []"
    and "distinct (map fst (tracked_people s))" and "[] \<notin> fst ` set (tracked_people s)"
  shows "pipeline_inv s'"
proof -
  obtain x y w h c where det: "det = (x, y, w, h, c)" by (cases det)
  from assms(1) obtain ts where ts: "timestamp_now s = Some ts"
    by (cases "timestamp_now s") (auto simp: refresh_and_register_def det)
  with assms(1) have s': "s' = s\<lparr>store := update_last_seen (store s) pid ts,
      tracked_people := register_face (tracked_people s) pid (x, y, w, h) crop c ts n\<rparr>"
    by (simp add: refresh_and_register_def det)
  show ?thesis
    using assms(2-5) ts
    by (auto simp: s' pipeline_inv_def register_face_def distinct_update dom_update)
qed

lemma resolve_inv:
  assumes "pipeline_inv s" and "resolve cfg n s det crop emb = Inr s'"
  shows "pipeline_inv s'"
proof -
  obtain x y w h c where det: "det = (x, y, w, h, c)" by (cases det)
  from assms(2) obtain pid new s1 where a: "assign_id cfg s (x, y, w, h) emb = Inr (pid, new, s1)"
    by (cases "assign_id cfg s (x, y, w, h) emb") (auto simp: resolve_def det)
  from assms(2) a obtain s2 where l: "log_entry cfg s1 pid crop = Inr s2"
    by (cases "log_entry cfg s1 pid crop") (auto simp: resolve_def det)
  from assms(2) a l have r: "refresh_and_register (store_if_diverse cfg s2 pid new emb) pid
      det crop n = Inr s'"
    by (simp add: resolve_def det)
  have "pid \<noteq> [] \<and> known_embeddings s1 \<noteq> [] \<and> tracked_people s1 = tracked_people s"
  proof (cases "truthy_id (position_match (tracked_people s) (x, y, w, h))")
    case True
    from assign_id_position_branch [OF True a] assms(1) show ?thesis
      by (auto simp: pipeline_inv_def)
  next
    case False
    from assign_id_embedding_branch [OF False a] show ?thesis by simp
  qed
  with log_entry_fields [OF l] store_if_diverse_fields [of cfg s2 pid new emb] assms(1)
  show ?thesis
    by (intro refresh_and_register_inv [OF r]) (auto simp: pipeline_inv_def)
qed

lemma process_detection_inv:
  assumes "pipeline_inv s" and "process_detection cfg ee frame n s det = Inr s'"
  shows "pipeline_inv s'"
  using assms resolve_inv [of s cfg n det _ _ s']
  by (auto simp: process_detection_def Let_def split: prod.splits if_splits option.splits)

lemma process_detections_inv:
  "pipeline_inv s \<Longrightarrow> process_detections cfg ee frame n s dets = Inr s' \<Longrightarrow> pipeline_inv s'"
proof (induction dets arbitrary: s)
  case Nil
  then show ?case by simp
next
  case (Cons d ds)
  from Cons.prems(2) obtain s1 where d: "process_detection cfg ee frame n s d = Inr s1"
    and r: "process_detections cfg ee frame n s1 ds = Inr s'"
    by (cases "process_detection cfg ee frame n s d") auto
  from Cons.IH [OF process_detection_inv [OF Cons.prems(1) d] r] show ?case .
qed

lemma process_frame_inv:
  assumes "pipeline_inv s" and "process_frame cfg df ee s frame n = Inr s'"
  shows "pipeline_inv s'"
proof -
  obtain w1 tp1 where u: "update_trackers (store s) (tracked_people s) n (Some (df frame)) = (w1, tp1)"
    by (cases "update_trackers (store s) (tracked_people s) n (Some (df frame))")
  from update_trackers_keys [of "store s" "tracked_people s" n "Some (df frame)"] u
  have "map fst tp1 = map fst (tracked_people s)" by simp
  from keys_inv [OF assms(1) this]
  have i1: "pipeline_inv (s\<lparr>store := w1, tracked_people := tp1\<rparr>)" .
  from assms(2) u obtain s2 where
    p: "(if n mod max 1 (detection_skip_frames cfg) = 0 \<or> tp1 = []
         then process_detections cfg ee frame n (s\<lparr>store := w1, tracked_people := tp1\<rparr>) (df frame)
         else Inr (s\<lparr>store := w1, tracked_people := tp1\<rparr>)) = Inr s2"
    and e: "s' = s2\<lparr>store := fst (handle_exits cfg (store s2) (tracked_people s2) n (exit_frame_threshold cfg)),
         tracked_people := snd (handle_exits cfg (store s2) (tracked_people s2) n (exit_frame_threshold cfg))\<rparr>"
    by (auto simp: process_frame_def Let_def split: sum.splits prod.splits)
  from p i1 process_detections_inv have i2: "pipeline_inv s2"
    by (auto split: if_splits)
  then have "distinct (map fst (tracked_people s2))" by (simp add: pipeline_inv_def)
  from subset_inv [OF i2 handle_exits_keys(1) [OF this] handle_exits_keys(2)] e
  show ?thesis by simp
qed

lemma main_loop_inv:
  "pipeline_inv s \<Longrightarrow> main_loop cfg df ee vis mf s n frames = Inr (s', n') \<Longrightarrow> pipeline_inv s'"
proof (induction frames arbitrary: s n)
  case Nil
  then show ?case by simp
next
  case (Cons f fs)
  obtain frame q where f: "f = (frame, q)" by (cases f)
  from Cons.prems(2) obtain s1 where p: "process_frame cfg df ee s frame (n + 1) = Inr s1"
    by (cases "process_frame cfg df ee s frame (n + 1)") (auto simp: f)
  from process_frame_inv [OF Cons.prems(1) p] have i: "pipeline_inv s1" .
  from Cons.prems(2) p have "s' = s1 \<or> main_loop cfg df ee vis mf s1 (n + 1) fs = Inr (s', n')"
    by (auto simp: f split: if_splits)
  with i Cons.IH [OF i] show ?case by auto
qed

lemma process_video_inv:
  assumes "process_video cfg df ee vis mf w frames = Inr s"
  shows "pipeline_inv s"
proof -
  obtain known w0 where g: "get_all_face_data w = (known, w0)"
    by (cases "get_all_face_data w")
  have i0: "pipeline_inv \<lparr>tracked_people = [], known_embeddings = known, store = w0, timestamp_now = None\<rparr>"
    by (simp add: pipeline_inv_def)
  from assms g obtain s1 n where m: "main_loop cfg df ee vis mf
      \<lparr>tracked_people = [], known_embeddings = known, store = w0, timestamp_now = None\<rparr> 0 frames = Inr (s1, n)"
    and e: "s = s1\<lparr>store := fst (handle_exits cfg (store s1) (tracked_people s1) n 0),
         tracked_people := snd (handle_exits cfg (store s1) (tracked_people s1) n 0)\<rparr>"
    by (auto simp: process_video_def split: sum.splits prod.splits)
  from main_loop_inv [OF i0 m] have i: "pipeline_inv s1" .
  then have "distinct (map fst (tracked_people s1))" by (simp add: pipeline_inv_def)
  from subset_inv [OF i handle_exits_keys(1) [OF this] handle_exits_keys(2)] e
  show ?thesis by simp
qed

section \<open>The three branches of identity resolution\<close>

lemma retention_queries_append [simp]:
  "retention_queries (es @ fs) = retention_queries es @ retention_queries fs"
  by (induction es rule: retention_queries.induct) simp_all

lemma get_next_person_id_fields:
  "visit_inserts (trace (snd (get_next_person_id w))) = visit_inserts (trace w)"
  "retention_queries (trace (snd (get_next_person_id w))) = retention_queries (trace w)"
  by (simp_all add: get_next_person_id_def Let_def)

lemma register_person_fields:
  "visit_inserts (trace (register_person w p e ts)) = visit_inserts (trace w)"
  "retention_queries (trace (register_person w p e ts)) = retention_queries (trace w)"
  by (simp_all add: register_person_def Let_def)

lemma update_last_seen_fields:
  "visit_inserts (trace (update_last_seen w p ts)) = visit_inserts (trace w)"
  "retention_queries (trace (update_last_seen w p ts)) = retention_queries (trace w)"
  by (simp_all add: update_last_seen_def)

lemma log_entry_returns:
  assumes "timestamp_now s = Some ts"
  shows "\<exists>s2. log_entry cfg s pid crop = Inr s2 \<and>
     known_embeddings s2 = known_embeddings s \<and> tracked_people s2 = tracked_people s \<and>
     timestamp_now s2 = Some ts \<and>
     retention_queries (trace (store s2)) = retention_queries (trace (store s)) \<and>
     visit_inserts (trace (store s2)) =
       visit_inserts (trace (store s)) @
       (if pid \<in> fst ` set (tracked_people s) then [] else [(pid, ''entry'')])"
  using assms
  by (simp add: log_entry_def save_cropped_face_def save_visit_record_def Let_def)

lemma store_if_diverse_queries:
  "retention_queries (trace (store (store_if_diverse cfg s pid new emb))) =
     retention_queries (trace (store s)) @ (if new then [] else [pid])"
  "visit_inserts (trace (store (store_if_diverse cfg s pid new emb))) = visit_inserts (trace (store s))"
  "tracked_people (store_if_diverse cfg s pid new emb) = tracked_people s"
  "timestamp_now (store_if_diverse cfg s pid new emb) = timestamp_now s"
proof -
  obtain keep where k: "should_store_embedding cfg (store s) pid emb = (keep, emit (FaceDataFind pid) (store s))"
    using should_store_embedding_world [of cfg "store s" pid emb]
    by (cases "should_store_embedding cfg (store s) pid emb") simp
  show "retention_queries (trace (store (store_if_diverse cfg s pid new emb))) =
     retention_queries (trace (store s)) @ (if new then [] else [pid])"
    by (simp add: store_if_diverse_def k insert_face_data_def split: option.splits)
  show "visit_inserts (trace (store (store_if_diverse cfg s pid new emb))) = visit_inserts (trace (store s))"
    by (simp add: store_if_diverse_def k insert_face_data_def split: option.splits)
  show "tracked_people (store_if_diverse cfg s pid new emb) = tracked_people s"
    by (simp add: store_if_diverse_def k insert_face_data_def split: option.splits)
  show "timestamp_now (store_if_diverse cfg s pid new emb) = timestamp_now s"
    by (simp add: store_if_diverse_def k insert_face_data_def split: option.splits)
qed

lemma store_if_diverse_growth:
  "known_embeddings (store_if_diverse cfg s pid False emb) = known_embeddings s \<and>
     stored_faces (store (store_if_diverse cfg s pid False emb)) = stored_faces (store s) \<or>
   known_embeddings (store_if_diverse cfg s pid False emb) = known_embeddings s @ [(pid, emb)] \<and>
     stored_faces (store (store_if_diverse cfg s pid False emb)) = stored_faces (store s) @ [(pid, emb)]"
proof -
  obtain keep where k: "should_store_embedding cfg (store s) pid emb = (keep, emit (FaceDataFind pid) (store s))"
    using should_store_embedding_world [of cfg "store s" pid emb]
    by (cases "should_store_embedding cfg (store s) pid emb") simp
  show ?thesis
    by (simp add: store_if_diverse_def k insert_face_data_def stored_faces_def split: option.splits)
qed

lemma refresh_and_register_returns:
  assumes "timestamp_now s = Some ts"
  shows "\<exists>s'. refresh_and_register s pid (x, y, w, h, c) crop frame_num = Inr s' \<and>
       known_embeddings s' = known_embeddings s \<and>
       retention_queries (trace (store s')) = retention_queries (trace (store s)) \<and>
       visit_inserts (trace (store s')) = visit_inserts (trace (store s)) \<and>
       stored_faces (store s') = stored_faces (store s) \<and>
       tracked_people s' = register_face (tracked_people s) pid (x, y, w, h) crop c ts frame_num"
  using assms by (simp add: refresh_and_register_def update_last_seen_def stored_faces_def)


lemma log_entry_store:
  assumes "timestamp_now s = Some ts" and "log_entry cfg s pid crop = Inr s2"
  shows "stored_faces (store s2) = stored_faces (store s)"
  using assms
  by (auto simp: log_entry_def save_cropped_face_def save_visit_record_def Let_def stored_faces_def
      split: if_splits)

lemma resolve_embedding_match:
  assumes pm: "\<not> truthy_id (position_match (tracked_people s) (x, y, w, h))"
    and fb: "find_best_match emb (known_embeddings s) = Inr (Some q, bs, ss)"
    and th: "bs \<ge> embedding_similarity_threshold cfg" and q: "q \<noteq> []"
  shows "\<exists>s'. resolve cfg n s (x, y, w, h, c) crop emb = Inr s' \<and>
     retention_queries (trace (store s')) = retention_queries (trace (store s)) @ [q] \<and>
     (known_embeddings s' = known_embeddings s \<and> stored_faces (store s') = stored_faces (store s) \<or>
      known_embeddings s' = known_embeddings s @ [(q, emb)] \<and>
        stored_faces (store s') = stored_faces (store s) @ [(q, emb)])"
proof -
  define t where "t = utcnow (store s) (length (trace (store s)))"
  define s1 where "s1 = s\<lparr>store := emit Utcnow (store s), timestamp_now := Some t\<rparr>"
  have a: "assign_id cfg s (x, y, w, h) emb = Inr (q, False, s1)"
    using pm fb th q by (simp add: assign_id_def timestamp_iso_def s1_def t_def)
  have t1: "timestamp_now s1 = Some t" by (simp add: s1_def)
  from log_entry_returns [OF t1, of cfg q crop] obtain s2 where
    l: "log_entry cfg s1 q crop = Inr s2" and k2: "known_embeddings s2 = known_embeddings s1"
    and t2: "timestamp_now s2 = Some t"
    and r2: "retention_queries (trace (store s2)) = retention_queries (trace (store s1))"
    by blast
  from log_entry_store [OF t1 l] have f2: "stored_faces (store s2) = stored_faces (store s1)" .
  define s3 where "s3 = store_if_diverse cfg s2 q False emb"
  have t3: "timestamp_now s3 = Some t"
    by (simp add: s3_def store_if_diverse_queries t2)
  from refresh_and_register_returns [OF t3, of q x y w h c crop n] obtain s' where
    r: "refresh_and_register s3 q (x, y, w, h, c) crop n = Inr s'"
    and k': "known_embeddings s' = known_embeddings s3"
    and r': "retention_queries (trace (store s')) = retention_queries (trace (store s3))"
    and f': "stored_faces (store s') = stored_faces (store s3)"
    by blast
  have res: "resolve cfg n s (x, y, w, h, c) crop emb = Inr s'"
    by (simp add: resolve_def a l r [unfolded s3_def])
  have q3: "retention_queries (trace (store s3)) = retention_queries (trace (store s)) @ [q]"
    by (simp add: s3_def store_if_diverse_queries r2 s1_def)
  have s1f: "known_embeddings s1 = known_embeddings s" "stored_faces (store s1) = stored_faces (store s)"
    by (simp_all add: s1_def stored_faces_def)
  from store_if_diverse_growth [of cfg s2 q emb]
  have "known_embeddings s3 = known_embeddings s \<and> stored_faces (store s3) = stored_faces (store s) \<or>
      known_embeddings s3 = known_embeddings s @ [(q, emb)] \<and>
        stored_faces (store s3) = stored_faces (store s) @ [(q, emb)]"
    by (simp add: s3_def k2 f2 s1f)
  with res q3 r' k' f' show ?thesis by simp
qed

lemma resolve_new_branch:
  assumes pm: "\<not> truthy_id (position_match (tracked_people s) (x, y, w, h))"
    and fb: "find_best_match emb (known_embeddings s) = Inr (bi, bs, ss)"
    and th: "\<not> (bs \<ge> embedding_similarity_threshold cfg \<and> truthy_id bi)"
  shows "\<exists>s'. resolve cfg n s (x, y, w, h, c) crop emb = Inr s' \<and>
     known_embeddings s' =
       known_embeddings s @ [(fst (get_next_person_id (snd (timestamp_iso (store s)))), emb)] \<and>
     retention_queries (trace (store s')) = retention_queries (trace (store s)) \<and>
     visit_inserts (trace (store s')) =
       visit_inserts (trace (store s)) @
       (if fst (get_next_person_id (snd (timestamp_iso (store s)))) \<in> fst ` set (tracked_people s)
        then [] else [(fst (get_next_person_id (snd (timestamp_iso (store s)))), ''entry'')]) \<and>
     tracked_people s' =
       register_face (tracked_people s) (fst (get_next_person_id (snd (timestamp_iso (store s)))))
         (x, y, w, h) crop c (fst (timestamp_iso (store s))) n"
proof -
  define t where "t = utcnow (store s) (length (trace (store s)))"
  obtain nid w2 where g: "get_next_person_id (emit Utcnow (store s)) = (nid, w2)"
    by (cases "get_next_person_id (emit Utcnow (store s))")
  define s1 where "s1 = s\<lparr>store := register_person w2 nid emb t, timestamp_now := Some t,
      known_embeddings := known_embeddings s @ [(nid, emb)]\<rparr>"
  have a: "assign_id cfg s (x, y, w, h) emb = Inr (nid, True, s1)"
    using pm fb th g by (auto simp: assign_id_def timestamp_iso_def s1_def t_def)
  have w2: "visit_inserts (trace w2) = visit_inserts (trace (store s))"
    "retention_queries (trace w2) = retention_queries (trace (store s))"
    using get_next_person_id_fields [of "emit Utcnow (store s)"] g by simp_all
  have t1: "timestamp_now s1 = Some t" by (simp add: s1_def)
  from log_entry_returns [OF t1, of cfg nid crop] obtain s2 where
    l: "log_entry cfg s1 nid crop = Inr s2" and k2: "known_embeddings s2 = known_embeddings s1"
    and p2: "tracked_people s2 = tracked_people s1"
    and t2: "timestamp_now s2 = Some t"
    and r2: "retention_queries (trace (store s2)) = retention_queries (trace (store s1))"
    and v2: "visit_inserts (trace (store s2)) = visit_inserts (trace (store s1)) @
       (if nid \<in> fst ` set (tracked_people s1) then [] else [(nid, ''entry'')])"
    by blast
  from refresh_and_register_returns [OF t2, of nid x y w h c crop n] obtain s' where
    r: "refresh_and_register s2 nid (x, y, w, h, c) crop n = Inr s'"
    and k': "known_embeddings s' = known_embeddings s2"
    and r': "retention_queries (trace (store s')) = retention_queries (trace (store s2))"
    and v': "visit_inserts (trace (store s')) = visit_inserts (trace (store s2))"
    and p': "tracked_people s' = register_face (tracked_people s2) nid (x, y, w, h) crop c t n"
    by blast
  have res: "resolve cfg n s (x, y, w, h, c) crop emb = Inr s'"
    by (simp add: resolve_def a l store_if_diverse_new r)
  have n: "fst (get_next_person_id (snd (timestamp_iso (store s)))) = nid"
    "fst (timestamp_iso (store s)) = t"
    by (simp_all add: timestamp_iso_def g t_def)
  show ?thesis
    unfolding n using res k' r' v' p' k2 r2 v2 p2
    by (simp add: s1_def register_person_fields w2)
qed

lemma str_int_2: "str_int 2 = ''2''"
  by (simp add: str_int_def str_nat.simps)

lemma nobody_tracked_facts:
  "pipeline_inv nobody_tracked"
  "\<not> truthy_id (position_match (tracked_people nobody_tracked) b)"
  "find_best_match [1, 0] (known_embeddings nobody_tracked) = Inr (Some ''person1'', 1, - 1)"
  "find_best_match [0, 1] (known_embeddings nobody_tracked) = Inr (Some ''person1'', 0, - 1)"
  "retention_queries (trace (store nobody_tracked)) = []"
  "known_embeddings nobody_tracked = [(''person1'', [1, 0])]"
  "fst (get_next_person_id (snd (timestamp_iso (store nobody_tracked)))) = ''person2''"
  by (simp_all add: nobody_tracked_def pipeline_inv_def find_best_match_def cosine_similarity_def
      np_dot_def person1_world_def empty_world_def timestamp_iso_def get_next_person_id_def
      fails_def str_int_2)

text \<open>
  C2, amended. For a detection resolved by the position loop the gallery is not queried for
  a best match, and its embedding is offered to the diversity filter: the calls to the
  outside are the filter's query, the insert when the filter keeps the embedding, and the
  update of the last-seen time, and the gallery and the store gain the pair exactly when
  the filter keeps it and the insert does not raise. A detection resolved by an embedding
  match is offered to the filter as well, and the gallery and the store gain the pair
  together or not at all. A detection resolved as a new person is not offered: the filter
  is not queried, and the gallery gains the pair of the new identifier and the embedding.
\<close>

theorem retention_offered_unless_new:
  assumes inv: "pipeline_inv s"
    and sse: "should_store_embedding cfg (store s) pid emb = (keep, w1)"
  shows
    "(position_match (tracked_people s) (x, y, w, h) = Some pid \<and> pid \<noteq> [] \<longrightarrow>
        (\<exists>s'. resolve cfg n s (x, y, w, h, c) crop emb = Inr s' \<and>
           known_embeddings s' =
             (if keep \<and> \<not> fails w1 then known_embeddings s @ [(pid, emb)] else known_embeddings s) \<and>
           stored_faces (store s') =
             (if keep \<and> \<not> fails w1 then stored_faces (store s) @ [(pid, emb)]
              else stored_faces (store s)) \<and>
           trace (store s') =
             trace (store s) @ [FaceDataFind pid] @ (if keep then [FaceDataInsert pid emb] else []) @
             [PeopleUpdate pid (the (timestamp_now s))])) \<and>
     (\<not> truthy_id (position_match (tracked_people s) (x, y, w, h)) \<and>
      find_best_match emb (known_embeddings s) = Inr (Some q, bs, ss) \<and>
      bs \<ge> embedding_similarity_threshold cfg \<and> q \<noteq> [] \<longrightarrow>
        (\<exists>s'. resolve cfg n s (x, y, w, h, c) crop emb = Inr s' \<and>
           retention_queries (trace (store s')) = retention_queries (trace (store s)) @ [q] \<and>
           (known_embeddings s' = known_embeddings s \<and>
              stored_faces (store s') = stored_faces (store s) \<or>
            known_embeddings s' = known_embeddings s @ [(q, emb)] \<and>
              stored_faces (store s') = stored_faces (store s) @ [(q, emb)]))) \<and>
     (\<not> truthy_id (position_match (tracked_people s) (x, y, w, h)) \<and>
      find_best_match emb (known_embeddings s) = Inr (bi, bs, ss) \<and>
      \<not> (bs \<ge> embedding_similarity_threshold cfg \<and> truthy_id bi) \<longrightarrow>
        (\<exists>s'. resolve cfg n s (x, y, w, h, c) crop emb = Inr s' \<and>
           retention_queries (trace (store s')) = retention_queries (trace (store s)) \<and>
           known_embeddings s' =
             known_embeddings s @ [(fst (get_next_person_id (snd (timestamp_iso (store s)))), emb)]))"
proof (intro conjI impI)
  assume a: "position_match (tracked_people s) (x, y, w, h) = Some pid \<and> pid \<noteq> []"
  then have pm: "position_match (tracked_people s) (x, y, w, h) = Some pid" and p: "pid \<noteq> []"
    by simp_all
  from position_match_nonempty [OF pm] inv obtain ts where ts: "timestamp_now s = Some ts"
    by (auto simp: pipeline_inv_def)
  note o = store_if_diverse_offer [OF ts sse]
  from refresh_and_register_fields [OF o(3), of pid x y w h c crop n]
  show "\<exists>s'. resolve cfg n s (x, y, w, h, c) crop emb = Inr s' \<and>
           known_embeddings s' =
             (if keep \<and> \<not> fails w1 then known_embeddings s @ [(pid, emb)] else known_embeddings s) \<and>
           stored_faces (store s') =
             (if keep \<and> \<not> fails w1 then stored_faces (store s) @ [(pid, emb)]
              else stored_faces (store s)) \<and>
           trace (store s') =
             trace (store s) @ [FaceDataFind pid] @ (if keep then [FaceDataInsert pid emb] else []) @
             [PeopleUpdate pid (the (timestamp_now s))]"
    unfolding resolve_spatial_match [OF pm p] o ts
    by (cases keep; cases "fails w1"; auto)
next
  assume "\<not> truthy_id (position_match (tracked_people s) (x, y, w, h)) \<and>
      find_best_match emb (known_embeddings s) = Inr (Some q, bs, ss) \<and>
      bs \<ge> embedding_similarity_threshold cfg \<and> q \<noteq> []"
  then show "\<exists>s'. resolve cfg n s (x, y, w, h, c) crop emb = Inr s' \<and>
           retention_queries (trace (store s')) = retention_queries (trace (store s)) @ [q] \<and>
           (known_embeddings s' = known_embeddings s \<and>
              stored_faces (store s') = stored_faces (store s) \<or>
            known_embeddings s' = known_embeddings s @ [(q, emb)] \<and>
              stored_faces (store s') = stored_faces (store s) @ [(q, emb)])"
    using resolve_embedding_match [of s x y w h emb q bs ss cfg n c crop] by blast
next
  assume "\<not> truthy_id (position_match (tracked_people s) (x, y, w, h)) \<and>
      find_best_match emb (known_embeddings s) = Inr (bi, bs, ss) \<and>
      \<not> (bs \<ge> embedding_similarity_threshold cfg \<and> truthy_id bi)"
  then show "\<exists>s'. resolve cfg n s (x, y, w, h, c) crop emb = Inr s' \<and>
           retention_queries (trace (store s')) = retention_queries (trace (store s)) \<and>
           known_embeddings s' =
             known_embeddings s @ [(fst (get_next_person_id (snd (timestamp_iso (store s)))), emb)]"
    using resolve_new_branch [of s x y w h emb bi bs ss cfg n c crop] by blast
qed

theorem retention_offered_unless_new_witness:
  "position_match (tracked_people one_tracked) (100, 100, 30, 30) = Some ''person1'' \<and>
   (\<exists>s'. resolve default_config 5 one_tracked (100, 100, 30, 30, 9 / 10) [[0]] [0, 1] = Inr s' \<and>
      known_embeddings s' = [(''person1'', [1, 0]), (''person1'', [0, 1])] \<and>
      trace (store s') =
        [FaceDataFind ''person1'', FaceDataInsert ''person1'' [0, 1], PeopleUpdate ''person1'' 0]) \<and>
   find_best_match [1, 0] (known_embeddings nobody_tracked) = Inr (Some ''person1'', 1, - 1) \<and>
   embedding_similarity_threshold default_config \<le> 1 \<and>
   (\<exists>s'. resolve default_config 5 nobody_tracked (100, 100, 30, 30, 9 / 10) [[0]] [1, 0] = Inr s' \<and>
      retention_queries (trace (store s')) = [''person1'']) \<and>
   find_best_match [0, 1] (known_embeddings nobody_tracked) = Inr (Some ''person1'', 0, - 1) \<and>
   \<not> embedding_similarity_threshold default_config \<le> 0 \<and>
   (\<exists>s'. resolve default_config 5 nobody_tracked (100, 100, 30, 30, 9 / 10) [[0]] [0, 1] = Inr s' \<and>
      retention_queries (trace (store s')) = [] \<and>
      known_embeddings s' = [(''person1'', [1, 0]), (''person2'', [0, 1])])"
proof -
  have i1: "pipeline_inv one_tracked"
    by (simp add: pipeline_inv_def one_tracked_def)
  have k: "should_store_embedding default_config (store one_tracked) ''person1'' [0, 1] =
     (True, emit (FaceDataFind ''person1'') person1_world)"
    using keep_person1 by (simp add: one_tracked_def)
  have f: "\<not> fails (emit (FaceDataFind ''person1'') person1_world)"
    by (simp add: fails_def person1_world_def empty_world_def)
  have g: "known_embeddings one_tracked = [(''person1'', [1, 0])]"
    "trace (store one_tracked) = []" "timestamp_now one_tracked = Some 0"
    by (simp_all add: one_tracked_def person1_world_def empty_world_def)
  have k2: "should_store_embedding default_config (store nobody_tracked) ''person1'' e =
      (fst (should_store_embedding default_config (store nobody_tracked) ''person1'' e),
       snd (should_store_embedding default_config (store nobody_tracked) ''person1'' e))" for e
    by simp
  have th: "embedding_similarity_threshold default_config \<le> 1"
    "\<not> embedding_similarity_threshold default_config \<le> 0"
    by (simp_all add: default_config_def)
  from retention_offered_unless_new [OF i1 k, where x = 100 and y = 100 and w = 30 and h = 30
      and n = 5 and c = "9 / 10" and crop = "[[0]]", THEN conjunct1]
    one_tracked_match f
  have a: "\<exists>s'. resolve default_config 5 one_tracked (100, 100, 30, 30, 9 / 10) [[0]] [0, 1] = Inr s' \<and>
      known_embeddings s' = [(''person1'', [1, 0]), (''person1'', [0, 1])] \<and>
      trace (store s') =
        [FaceDataFind ''person1'', FaceDataInsert ''person1'' [0, 1], PeopleUpdate ''person1'' 0]"
    by (auto simp: g)
  from retention_offered_unless_new [OF nobody_tracked_facts(1) k2 [of "[1, 0]"], where x = 100
      and y = 100 and w = 30 and h = 30 and n = 5 and c = "9 / 10" and crop = "[[0]]"
      and q = "''person1''" and bs = 1 and ss = "- 1", THEN conjunct2, THEN conjunct1]
    nobody_tracked_facts(2,3) th
  have b: "\<exists>s'. resolve default_config 5 nobody_tracked (100, 100, 30, 30, 9 / 10) [[0]] [1, 0] = Inr s' \<and>
      retention_queries (trace (store s')) = [''person1'']"
    by (auto simp: nobody_tracked_facts(5))
  from retention_offered_unless_new [OF nobody_tracked_facts(1) k2 [of "[0, 1]"], where x = 100
      and y = 100 and w = 30 and h = 30 and n = 5 and c = "9 / 10" and crop = "[[0]]"
      and bi = "Some ''person1''" and bs = 0 and ss = "- 1", THEN conjunct2, THEN conjunct2]
    nobody_tracked_facts(2,4) th
  have c: "\<exists>s'. resolve default_config 5 nobody_tracked (100, 100, 30, 30, 9 / 10) [[0]] [0, 1] = Inr s' \<and>
      retention_queries (trace (store s')) = [] \<and>
      known_embeddings s' = [(''person1'', [1, 0]), (''person2'', [0, 1])]"
    by (auto simp: nobody_tracked_facts(5,6,7))
  from a b c one_tracked_match nobody_tracked_facts(3,4) th show ?thesis by simp
qed

section \<open>The first detection on an empty gallery\<close>








end
